theory Spec2Isabelle
  imports Main "HOL-Library.Multiset"
begin

section \<open>Data model (main.py)\<close>

text \<open>
  The four classes of \<^verbatim>\<open>main.py\<close>. The field \<^verbatim>\<open>id\<close> of \<^verbatim>\<open>User\<close> is written \<open>uid\<close>
  (\<open>id\<close> is the identity function of HOL); the fields of \<^verbatim>\<open>Order\<close> and \<^verbatim>\<open>Customer\<close> carry
  a prefix, since \<^verbatim>\<open>FinancialFund\<close> has fields of the same names. \<^verbatim>\<open>parent_id\<close> is
  \<^verbatim>\<open>None\<close> for a root. Amounts are kept as integers (hundredths); no operation modelled here
  computes with them, they are only compared when a page is sorted by amount.
\<close>

record user =
  uid :: int
  name :: string
  role :: string
  department :: string
  parent_id :: "int option"

record financial_fund =
  fund_id :: int
  handle_by :: int
  order_id :: int
  customer_id :: int
  amount :: int

record order =
  o_order_id :: int
  o_user_id :: int

record customer =
  c_customer_id :: int
  c_admin_user_id :: int

text \<open>
  \<^verbatim>\<open>PermissionService\<close> holds three dictionaries and a list. A Python dictionary keeps its
  insertion order, and \<^verbatim>\<open>get_subordinates\<close> and \<^verbatim>\<open>authenticate\<close> iterate over it, so a
  dictionary is an association list; \<open>map_of\<close> is the lookup \<^verbatim>\<open>d[k]\<close>.
\<close>

record permission_service =
  users :: "(int \<times> user) list"
  financial_funds :: "financial_fund list"
  orders :: "(int \<times> order) list"
  customers :: "(int \<times> customer) list"

datatype error =
    KeyError int | NotLoggedIn | TypeError | ValueError | ZeroDivisionError
  | BackendError | RecursionLimit

section \<open>PermissionService.get_subordinates (main.py)\<close>

text \<open>
  \<^verbatim>\<open>
  subordinates = set(); stack = [user_id]
  while stack:
      current = stack.pop()
      subordinates.add(current)
      for uid, user in self.users.items():
          if user.parent_id == current:
              stack.append(uid)
  return subordinates
  \<close>
  The stack is a Python list: \<^verbatim>\<open>pop()\<close> takes the last element and \<^verbatim>\<open>append\<close> adds at
  the end. The loop has no bound, so it is a partial function: \<open>None\<close> is "never returns".
\<close>

definition children_of :: "(int \<times> user) list \<Rightarrow> int \<Rightarrow> int list" where
  "children_of us current = map fst (filter (\<lambda>(k, u). parent_id u = Some current) us)"

partial_function (option) subordinates_loop ::
  "(int \<times> user) list \<Rightarrow> int list \<Rightarrow> int set \<Rightarrow> int set option" where
  "subordinates_loop us stack subordinates =
     (if stack = [] then Some subordinates
      else subordinates_loop us (butlast stack @ children_of us (last stack))
             (insert (last stack) subordinates))"

declare subordinates_loop.simps [code]

definition get_subordinates :: "permission_service \<Rightarrow> int \<Rightarrow> int set option" where
  "get_subordinates svc user_id = subordinates_loop (users svc) [user_id] {}"


text \<open>The relation "is a direct subordinate of" that the traversal follows.\<close>

definition child_of :: "(int \<times> user) list \<Rightarrow> (int \<times> int) set" where
  "child_of us = {(c, p). c \<in> set (children_of us p)}"

section \<open>PermissionService.get_accessible_data_scope and FinancialService.get_funds (main.py)\<close>

text \<open>
  The scope dictionary has the keys \<^verbatim>\<open>handle_by\<close>, \<^verbatim>\<open>order_ids\<close> and \<^verbatim>\<open>customer_ids\<close>, each a
  set of ids.
\<close>

record scope =
  sc_handle_by :: "int set"
  sc_order_ids :: "int set"
  sc_customer_ids :: "int set"

text \<open>\<^verbatim>\<open>self.users[k]\<close> raises \<^verbatim>\<open>KeyError\<close> when the key is absent.\<close>

definition lookup_user :: "(int \<times> user) list \<Rightarrow> int \<Rightarrow> error + user" where
  "lookup_user us k = (case map_of us k of None \<Rightarrow> Inl (KeyError k) | Some u \<Rightarrow> Inr u)"

text \<open>
  A set comprehension \<^verbatim>\<open>{f(x) for x in xs if p(x)}\<close> whose condition can raise: the first
  element, in iteration order, at which the condition raises ends the comprehension.
\<close>

fun collect_ids :: "('a \<Rightarrow> error + bool) \<Rightarrow> ('a \<Rightarrow> int) \<Rightarrow> 'a list \<Rightarrow> error + int set" where
  "collect_ids p f [] = Inr {}"
| "collect_ids p f (x # xs) =
     (case p x of
        Inl e \<Rightarrow> Inl e
      | Inr b \<Rightarrow>
          (case collect_ids p f xs of
             Inl e \<Rightarrow> Inl e
           | Inr s \<Rightarrow> Inr (if b then insert (f x) s else s)))"

definition owner_in :: "(int \<times> user) list \<Rightarrow> int set \<Rightarrow> int \<Rightarrow> error + bool" where
  "owner_in us subordinates k =
     (case lookup_user us k of Inl e \<Rightarrow> Inl e | Inr u \<Rightarrow> Inr (uid u \<in> subordinates))"

definition supervisor_scope :: "permission_service \<Rightarrow> int set \<Rightarrow> error + scope" where
  "supervisor_scope svc subordinates =
     (case collect_ids (\<lambda>ord. owner_in (users svc) subordinates (o_user_id ord)) o_order_id
             (map snd (orders svc)) of
        Inl e \<Rightarrow> Inl e
      | Inr os \<Rightarrow>
          (case collect_ids (\<lambda>c. owner_in (users svc) subordinates (c_admin_user_id c))
                  c_customer_id (map snd (customers svc)) of
             Inl e \<Rightarrow> Inl e
           | Inr cs \<Rightarrow>
               Inr \<lparr>sc_handle_by = {i \<in> set (map (uid \<circ> snd) (users svc)). i \<in> subordinates},
                    sc_order_ids = os, sc_customer_ids = cs\<rparr>))"

text \<open>
  The result is \<open>None\<close> when \<^verbatim>\<open>get_subordinates\<close> never returns, \<open>Some (Inl e)\<close> when an
  exception is raised, \<open>Some (Inr scope)\<close> otherwise. A role other than the three named ones
  leaves the three sets empty.
\<close>

definition get_accessible_data_scope ::
  "permission_service \<Rightarrow> user \<Rightarrow> (error + scope) option" where
  "get_accessible_data_scope svc usr =
     (if role usr = ''admin'' then
        Some (Inr \<lparr>sc_handle_by = set (map (uid \<circ> snd) (users svc)),
                   sc_order_ids = set (map (o_order_id \<circ> snd) (orders svc)),
                   sc_customer_ids = set (map (c_customer_id \<circ> snd) (customers svc))\<rparr>)
      else if role usr = ''supervisor'' then
        (case get_subordinates svc (uid usr) of
           None \<Rightarrow> None
         | Some subordinates \<Rightarrow> Some (supervisor_scope svc subordinates))
      else if role usr = ''staff'' then
        Some (Inr \<lparr>sc_handle_by = {uid usr},
                   sc_order_ids =
                     set (map o_order_id (filter (\<lambda>ord. o_user_id ord = uid usr) (map snd (orders svc)))),
                   sc_customer_ids =
                     set (map c_customer_id
                       (filter (\<lambda>c. c_admin_user_id c = uid usr) (map snd (customers svc))))\<rparr>)
      else Some (Inr \<lparr>sc_handle_by = {}, sc_order_ids = {}, sc_customer_ids = {}\<rparr>))"

definition in_scope :: "scope \<Rightarrow> financial_fund \<Rightarrow> bool" where
  "in_scope sc fund \<longleftrightarrow>
     handle_by fund \<in> sc_handle_by sc \<or> order_id fund \<in> sc_order_ids sc
       \<or> customer_id fund \<in> sc_customer_ids sc"

definition get_funds :: "permission_service \<Rightarrow> user \<Rightarrow> (error + financial_fund list) option" where
  "get_funds svc usr =
     (case get_accessible_data_scope svc usr of
        None \<Rightarrow> None
      | Some (Inl e) \<Rightarrow> Some (Inl e)
      | Some (Inr sc) \<Rightarrow> Some (Inr (filter (in_scope sc) (financial_funds svc))))"

section \<open>ApiGateway (main.py)\<close>

record api_gateway =
  permission_svc :: permission_service
  current_user :: "user option"

text \<open>
  \<^verbatim>\<open>
  self.current_user = next(
      (u for u in self.permission_svc.users.values() if u.role == role),
      self.permission_svc.users[1])
  \<close>
  Both arguments of \<^verbatim>\<open>next\<close> are evaluated before the call, so \<^verbatim>\<open>users[1]\<close> raises
  \<^verbatim>\<open>KeyError\<close> when there is no user 1, whatever the role.
\<close>

definition authenticate :: "api_gateway \<Rightarrow> string \<Rightarrow> error + api_gateway" where
  "authenticate gw r =
     (case lookup_user (users (permission_svc gw)) 1 of
        Inl e \<Rightarrow> Inl e
      | Inr dflt \<Rightarrow>
          Inr (gw\<lparr>current_user :=
                 Some (case find (\<lambda>u. role u = r) (map snd (users (permission_svc gw))) of
                         Some u \<Rightarrow> u
                       | None \<Rightarrow> dflt)\<rparr>))"

definition api_get_funds :: "api_gateway \<Rightarrow> (error + financial_fund list) option" where
  "api_get_funds gw =
     (case current_user gw of
        None \<Rightarrow> Some (Inl NotLoggedIn)
      | Some u \<Rightarrow> get_funds (permission_svc gw) u)"

section \<open>The relational tables (MySQL scripts)\<close>

text \<open>
  The pagination scripts read five tables. A table is the list of its rows in the order in
  which a scan without \<^verbatim>\<open>ORDER BY\<close> delivers them. \<^verbatim>\<open>user_hierarchy\<close> holds the
  precomputed closure: one row per (user, subordinate) pair, with its depth.
\<close>

record hierarchy_edge =
  h_user_id :: int
  h_subordinate_id :: int
  h_depth :: int

record database =
  db_users :: "user list"
  db_user_hierarchy :: "hierarchy_edge list"
  db_orders :: "order list"
  db_customers :: "customer list"
  db_financial_funds :: "financial_fund list"

text \<open>
  The three columns of \<^verbatim>\<open>financial_funds\<close> that carry a permission dimension. A query on
  a dimension can fail (the connection drops, the future times out): \<open>be_fails\<close> says for
  which dimension and which batch of ids the backend raises. The other queries of the
  scripts (permissions, user names) are taken to succeed.
\<close>

datatype column = HandleBy | OrderId | CustomerId

fun col_val :: "column \<Rightarrow> financial_fund \<Rightarrow> int" where
  "col_val HandleBy f = handle_by f"
| "col_val OrderId f = order_id f"
| "col_val CustomerId f = customer_id f"

record backend =
  be_db :: database
  be_fails :: "column \<Rightarrow> int list \<Rightarrow> bool"

text \<open>
  \<^verbatim>\<open>SELECT fund_id, handle_by, order_id, customer_id, amount FROM financial_funds
  WHERE <column> IN (<ids>)\<close>
\<close>

definition select_funds_in :: "database \<Rightarrow> column \<Rightarrow> int list \<Rightarrow> financial_fund list" where
  "select_funds_in db col ids = filter (\<lambda>f. col_val col f \<in> set ids) (db_financial_funds db)"

definition run_fund_query :: "backend \<Rightarrow> column \<Rightarrow> int list \<Rightarrow> error + financial_fund list" where
  "run_fund_query be col ids =
     (if be_fails be col ids then Inl BackendError else Inr (select_funds_in (be_db be) col ids))"

section \<open>execute_batch_query (high_concurrency_pagination.py)\<close>

text \<open>
  \<^verbatim>\<open>
  for i in range(0, len(params), batch_size):
      batch_params = params[i:i + batch_size]
  \<close>
  The slices of a list taken at the multiples of \<open>n\<close>.
\<close>

fun batches :: "nat \<Rightarrow> 'a list \<Rightarrow> 'a list list" where
  "batches n xs = (if n = 0 \<or> xs = [] then [] else take n xs # batches n (drop n xs))"

declare batches.simps [simp del]

text \<open>
  The loop over the batches. The state is the list of batch queries sent to the cursor so
  far and the rows accumulated in \<^verbatim>\<open>all_results\<close>. An exception of \<^verbatim>\<open>cursor.execute\<close> leaves
  the loop (and the function); the query that raised has been sent.
\<close>

fun run_batches ::
  "backend \<Rightarrow> column \<Rightarrow> int list list \<Rightarrow> int list list \<Rightarrow> financial_fund list
     \<Rightarrow> int list list \<times> (error + financial_fund list)" where
  "run_batches be col [] sent all_results = (sent, Inr all_results)"
| "run_batches be col (b # bs) sent all_results =
     (case run_fund_query be col b of
        Inl e \<Rightarrow> (sent @ [b], Inl e)
      | Inr batch_results \<Rightarrow> run_batches be col bs (sent @ [b]) (all_results @ batch_results))"

text \<open>
  The result is the pair of the batch queries issued and the outcome. \<^verbatim>\<open>range\<close> with a zero
  step raises \<^verbatim>\<open>ValueError\<close>.
\<close>

definition execute_batch_query ::
  "backend \<Rightarrow> column \<Rightarrow> int list \<Rightarrow> nat \<Rightarrow> int list list \<times> (error + financial_fund list)" where
  "execute_batch_query be col params batch_size =
     (if params = [] then ([], Inr [])
      else if batch_size = 0 then ([], Inl ValueError)
      else run_batches be col (batches batch_size params) [] [])"

section \<open>get_financial_funds_parallel (high_concurrency_pagination.py)\<close>

text \<open>
  One future per non-empty dimension, each running \<^verbatim>\<open>execute_batch_query\<close> with the default
  batch size 1000. The results are collected in the order of submission:
  \<^verbatim>\<open>
  for future in futures:
      try:
          results = future.result(timeout=10)
          all_funds.extend(results)
      except Exception as e:
          print(...)
  \<close>
  so a dimension that raised contributes nothing and the loop goes on.
\<close>

definition dimension_results :: "backend \<Rightarrow> column \<Rightarrow> int list \<Rightarrow> (error + financial_fund list) list" where
  "dimension_results be col ids =
     (if ids = [] then [] else [snd (execute_batch_query be col ids 1000)])"

definition collect_futures :: "(error + financial_fund list) list \<Rightarrow> financial_fund list" where
  "collect_futures futures =
     concat (map (\<lambda>r. case r of Inl e \<Rightarrow> [] | Inr results \<Rightarrow> results) futures)"

text \<open>
  \<^verbatim>\<open>
  unique_funds = {}
  for fund in all_funds:
      if fund[0] not in unique_funds:
          unique_funds[fund[0]] = fund
  return list(unique_funds.values())
  \<close>
  The dictionary is an association list in insertion order.
\<close>

definition unique_funds :: "financial_fund list \<Rightarrow> (int \<times> financial_fund) list" where
  "unique_funds all_funds =
     fold (\<lambda>fund d. if fund_id fund \<in> fst ` set d then d else d @ [(fund_id fund, fund)])
       all_funds []"

definition get_financial_funds_parallel ::
  "backend \<Rightarrow> int list \<Rightarrow> int list \<Rightarrow> int list \<Rightarrow> financial_fund list" where
  "get_financial_funds_parallel be handle_by_ids order_ids customer_ids =
     map snd (unique_funds (collect_futures
       (dimension_results be HandleBy handle_by_ids
        @ dimension_results be OrderId order_ids
        @ dimension_results be CustomerId customer_ids)))"

text \<open>
  A dimension answers when \<^verbatim>\<open>future.result()\<close> of its batched query returns rows; when it
  raises, the \<^verbatim>\<open>except\<close> branch prints the error and the dimension adds nothing to
  \<^verbatim>\<open>all_funds\<close>.
\<close>

definition dimension_answers :: "backend \<Rightarrow> column \<Rightarrow> int list \<Rightarrow> bool" where
  "dimension_answers be col ids \<longleftrightarrow>
     (case snd (execute_batch_query be col ids 1000) of Inl e \<Rightarrow> False | Inr rows \<Rightarrow> True)"

section \<open>get_user_permissions (high_concurrency_pagination.py)\<close>

text \<open>
  The cached permission data (the timestamp is left out). The cache is the in-memory
  dictionary of \<^verbatim>\<open>PermissionCache\<close>, keyed by the supervisor id; the expiry of an entry after
  its time to live is not modelled.
\<close>

record permissions =
  subordinate_ids :: "int list"
  p_order_ids :: "int list"
  p_customer_ids :: "int list"

type_synonym permission_cache = "int \<rightharpoonup> permissions"

definition get_subordinate_ids :: "database \<Rightarrow> int \<Rightarrow> int list" where
  "get_subordinate_ids db supervisor_id =
     map h_subordinate_id (filter (\<lambda>e. h_user_id e = supervisor_id) (db_user_hierarchy db))"

definition get_order_ids_for_users :: "database \<Rightarrow> int list \<Rightarrow> int list" where
  "get_order_ids_for_users db user_ids =
     (if user_ids = [] then []
      else map o_order_id (filter (\<lambda>ord. o_user_id ord \<in> set user_ids) (db_orders db)))"

definition get_customer_ids_for_users :: "database \<Rightarrow> int list \<Rightarrow> int list" where
  "get_customer_ids_for_users db user_ids =
     (if user_ids = [] then []
      else map c_customer_id
             (filter (\<lambda>c. c_admin_user_id c \<in> set user_ids) (db_customers db)))"

text \<open>
  \<^verbatim>\<open>
  subordinate_ids = get_subordinate_ids(cursor, supervisor_id)
  if supervisor_id not in subordinate_ids:
      subordinate_ids.append(supervisor_id)
  \<close>
  written out in every pagination script.
\<close>

definition resolve_subordinate_ids :: "database \<Rightarrow> int \<Rightarrow> int list" where
  "resolve_subordinate_ids db supervisor_id =
     (let subordinate_ids = get_subordinate_ids db supervisor_id
      in if supervisor_id \<in> set subordinate_ids then subordinate_ids
         else subordinate_ids @ [supervisor_id])"

definition query_permissions :: "database \<Rightarrow> int \<Rightarrow> permissions" where
  "query_permissions db supervisor_id =
     (let subs = resolve_subordinate_ids db supervisor_id
      in \<lparr>subordinate_ids = subs,
          p_order_ids = get_order_ids_for_users db subs,
          p_customer_ids = get_customer_ids_for_users db subs\<rparr>)"

definition get_user_permissions ::
  "database \<Rightarrow> permission_cache \<Rightarrow> int \<Rightarrow> permissions \<times> permission_cache" where
  "get_user_permissions db cache supervisor_id =
     (case cache supervisor_id of
        Some cached \<Rightarrow> (cached, cache)
      | None \<Rightarrow>
          (let p = query_permissions db supervisor_id
           in (p, cache(supervisor_id \<mapsto> p))))"

section \<open>get_paginated_financial_data (high_concurrency_pagination.py)\<close>

text \<open>
  Python's \<^verbatim>\<open>xs[i:j]\<close> for integers of either sign: a negative index counts from the end,
  and both ends are clamped to the list.
\<close>

definition py_clamp :: "nat \<Rightarrow> int \<Rightarrow> nat" where
  "py_clamp n i = (if i < 0 then nat (max 0 (int n + i)) else min (nat i) n)"

definition py_slice :: "'a list \<Rightarrow> int \<Rightarrow> int \<Rightarrow> 'a list" where
  "py_slice xs i j =
     (let a = py_clamp (length xs) i; b = py_clamp (length xs) j
      in take (b - a) (drop a xs))"

text \<open>
  \<^verbatim>\<open>list.sort(key=k, reverse=r)\<close> is stable, also when reversed: elements with equal keys
  keep their order.
\<close>

definition py_sort :: "('a \<Rightarrow> int) \<Rightarrow> bool \<Rightarrow> 'a list \<Rightarrow> 'a list" where
  "py_sort k reverse xs = (if reverse then rev (sort_key k (rev xs)) else sort_key k xs)"

text \<open>\<^verbatim>\<open>sort_order.upper() == "DESC"\<close> on the ASCII letters of the argument.\<close>

definition upper_char :: "char \<Rightarrow> char" where
  "upper_char c =
     (if (97::nat) \<le> of_char c \<and> of_char c \<le> (122::nat)
      then char_of (of_char c - (32::nat)) else c)"

definition is_desc :: "string \<Rightarrow> bool" where
  "is_desc sort_order \<longleftrightarrow> map upper_char sort_order = ''DESC''"

definition memory_sort_key :: "string \<Rightarrow> financial_fund \<Rightarrow> int" where
  "memory_sort_key sort_by =
     (if sort_by = ''fund_id'' then fund_id
      else if sort_by = ''amount'' then amount
      else if sort_by = ''handle_by'' then handle_by
      else fund_id)"

text \<open>
  An item of the page: the fund with the name and department of its handler, or the
  placeholder (a two-character word for "unknown" in the source) when the handler is not in
  \<^verbatim>\<open>users\<close>. The user rows are put in a dictionary keyed by id, so the last row of an id
  is the one that is used (\<^verbatim>\<open>id\<close> is the primary key: there is at most one).
\<close>

record fund_view =
  fv_fund :: financial_fund
  fv_handler_name :: string
  fv_department :: string

definition unknown_label :: string where
  "unknown_label = ''unknown''"

definition with_user_info :: "database \<Rightarrow> financial_fund \<Rightarrow> fund_view" where
  "with_user_info db fund =
     (case find (\<lambda>u. uid u = handle_by fund) (rev (db_users db)) of
        Some u \<Rightarrow> \<lparr>fv_fund = fund, fv_handler_name = name u, fv_department = department u\<rparr>
      | None \<Rightarrow>
          \<lparr>fv_fund = fund, fv_handler_name = unknown_label, fv_department = unknown_label\<rparr>)"

record pagination =
  pg_page :: int
  pg_page_size :: int
  pg_total_count :: int
  pg_total_pages :: int
  pg_has_next :: bool
  pg_has_prev :: bool

record response =
  rs_data :: "fund_view list"
  rs_pagination :: pagination

text \<open>
  \<^verbatim>\<open>total_pages = (total_count + page_size - 1) // page_size if total_count > 0 else 1\<close>:
  integer division by zero raises. Python's \<^verbatim>\<open>//\<close> rounds towards minus infinity, as
  \<open>div\<close> on \<open>int\<close> does.
\<close>

definition total_pages_of :: "int \<Rightarrow> int \<Rightarrow> error + int" where
  "total_pages_of total_count page_size =
     (if total_count > 0 then
        (if page_size = 0 then Inl ZeroDivisionError
         else Inr ((total_count + page_size - 1) div page_size))
      else Inr 1)"

definition page_info :: "int \<Rightarrow> int \<Rightarrow> int \<Rightarrow> error + pagination" where
  "page_info page page_size total_count =
     (case total_pages_of total_count page_size of
        Inl e \<Rightarrow> Inl e
      | Inr total_pages \<Rightarrow>
          Inr \<lparr>pg_page = page, pg_page_size = page_size, pg_total_count = total_count,
               pg_total_pages = total_pages, pg_has_next = (page < total_pages),
               pg_has_prev = (page > 1)\<rparr>)"

definition get_paginated_financial_data ::
  "backend \<Rightarrow> permission_cache \<Rightarrow> int \<Rightarrow> int \<Rightarrow> int \<Rightarrow> string \<Rightarrow> string
     \<Rightarrow> (error + response) \<times> permission_cache" where
  "get_paginated_financial_data be cache supervisor_id page page_size sort_by sort_order =
     (let (perms, cache') = get_user_permissions (be_db be) cache supervisor_id;
          all_funds = py_sort (memory_sort_key sort_by) (is_desc sort_order)
                        (get_financial_funds_parallel be (subordinate_ids perms)
                           (p_order_ids perms) (p_customer_ids perms));
          total_count = int (length all_funds);
          start_idx = (page - 1) * page_size;
          end_idx = start_idx + page_size;
          page_funds = py_slice all_funds start_idx end_idx;
          fund_data = map (with_user_info (be_db be)) page_funds
      in (case page_info page page_size total_count of
            Inl e \<Rightarrow> (Inl e, cache')
          | Inr pg \<Rightarrow> (Inr \<lparr>rs_data = fund_data, rs_pagination = pg\<rparr>, cache')))"

section \<open>create_temp_permission_table and get_accurate_pagination (accurate_pagination.py)\<close>

text \<open>
  \<^verbatim>\<open>INSERT IGNORE INTO temp (...) SELECT ... FROM financial_funds WHERE <column> IN (<batch>)\<close>
  into a table whose primary key is \<^verbatim>\<open>fund_id\<close>: a selected row whose key is already in the
  table is dropped.
\<close>

definition insert_ignore :: "financial_fund list \<Rightarrow> financial_fund list \<Rightarrow> financial_fund list" where
  "insert_ignore rows tbl =
     fold (\<lambda>r t. if fund_id r \<in> fund_id ` set t then t else t @ [r]) rows tbl"

text \<open>
  The three loops of \<^verbatim>\<open>create_temp_permission_table\<close>, with \<^verbatim>\<open>batch_size = 1000\<close>. A
  dimension's loop runs one insert statement per batch; \<open>insert_batches\<close> gives the table
  after them.
\<close>

definition insert_batches ::
  "database \<Rightarrow> column \<Rightarrow> int list \<Rightarrow> financial_fund list \<Rightarrow> financial_fund list" where
  "insert_batches db col ids tbl =
     fold (\<lambda>batch t. insert_ignore (select_funds_in db col batch) t) (batches 1000 ids) tbl"

definition create_temp_permission_table ::
  "database \<Rightarrow> int list \<Rightarrow> int list \<Rightarrow> int list \<Rightarrow> financial_fund list" where
  "create_temp_permission_table db handle_by_ids order_ids customer_ids =
     insert_batches db CustomerId customer_ids
       (insert_batches db OrderId order_ids
          (insert_batches db HandleBy handle_by_ids []))"

text \<open>
  The columns of \<^verbatim>\<open>financial_funds\<close> by name, for \<^verbatim>\<open>ORDER BY t.{sort_by}\<close>; another name
  makes the statement fail.
\<close>

definition fund_column :: "string \<Rightarrow> (financial_fund \<Rightarrow> int) option" where
  "fund_column sort_by =
     (if sort_by = ''fund_id'' then Some fund_id
      else if sort_by = ''handle_by'' then Some handle_by
      else if sort_by = ''order_id'' then Some order_id
      else if sort_by = ''customer_id'' then Some customer_id
      else if sort_by = ''amount'' then Some amount
      else None)"

text \<open>
  \<^verbatim>\<open>ORDER BY <column> <direction>\<close>. The direction is pasted into the statement: \<^verbatim>\<open>ASC\<close>,
  \<^verbatim>\<open>DESC\<close> (in any case) or nothing are accepted, anything else makes the statement fail
  (\<open>None\<close>; \<open>Some True\<close> is descending). MySQL leaves the order of rows with equal keys
  open; the model keeps them in scan order.
\<close>

definition sql_direction :: "string \<Rightarrow> bool option" where
  "sql_direction sort_order =
     (if map upper_char sort_order = ''DESC'' then Some True
      else if map upper_char sort_order = ''ASC'' \<or> sort_order = [] then Some False
      else None)"

definition order_by :: "(financial_fund \<Rightarrow> int) \<Rightarrow> bool \<Rightarrow> financial_fund list \<Rightarrow> financial_fund list" where
  "order_by k desc rows = (if desc then rev (sort_key k (rev rows)) else sort_key k rows)"

text \<open>
  \<^verbatim>\<open>... FROM <funds> t JOIN users u ON t.handle_by = u.id\<close>: a fund whose handler is not a
  row of \<^verbatim>\<open>users\<close> drops out of the join.
\<close>

definition join_users :: "database \<Rightarrow> financial_fund list \<Rightarrow> fund_view list" where
  "join_users db rows =
     concat (map (\<lambda>f. map (\<lambda>u. \<lparr>fv_fund = f, fv_handler_name = name u,
                                   fv_department = department u\<rparr>)
                         (filter (\<lambda>u. uid u = handle_by f) (db_users db))) rows)"

text \<open>\<^verbatim>\<open>LIMIT n OFFSET m\<close>; a negative \<open>n\<close> or \<open>m\<close> is rejected by the server.\<close>

definition limit_offset :: "int \<Rightarrow> int \<Rightarrow> 'a list \<Rightarrow> error + 'a list" where
  "limit_offset n m rows =
     (if n < 0 \<or> m < 0 then Inl BackendError else Inr (take (nat n) (drop (nat m) rows)))"

definition get_accurate_pagination ::
  "database \<Rightarrow> financial_fund list \<Rightarrow> int \<Rightarrow> int \<Rightarrow> string \<Rightarrow> string
     \<Rightarrow> error + fund_view list \<times> int" where
  "get_accurate_pagination db temp_table page page_size sort_by sort_order =
     (let total_count = int (length temp_table);
          offset = (page - 1) * page_size
      in case (fund_column sort_by, sql_direction sort_order) of
           (Some k, Some desc) \<Rightarrow>
             (case limit_offset page_size offset (join_users db (order_by k desc temp_table)) of
                Inl e \<Rightarrow> Inl e
              | Inr results \<Rightarrow> Inr (results, total_count))
         | _ \<Rightarrow> Inl BackendError)"

text \<open>
  \<^verbatim>\<open>accurate_pagination_service\<close>: a database error becomes the \<^verbatim>\<open>{"error": ...}\<close> reply
  (\<open>Inr (Inl e)\<close>); the division by zero in the page count is not caught (\<open>Inl e\<close>).
\<close>

definition accurate_pagination_service ::
  "database \<Rightarrow> int \<Rightarrow> int \<Rightarrow> int \<Rightarrow> string \<Rightarrow> string \<Rightarrow> error + (error + response)" where
  "accurate_pagination_service db supervisor_id page page_size sort_by sort_order =
     (let subs = resolve_subordinate_ids db supervisor_id;
          order_ids = get_order_ids_for_users db subs;
          customer_ids = get_customer_ids_for_users db subs;
          temp_table = create_temp_permission_table db subs order_ids customer_ids
      in case get_accurate_pagination db temp_table page page_size sort_by sort_order of
           Inl e \<Rightarrow> Inr (Inl e)
         | Inr (results, total_count) \<Rightarrow>
             (case page_info page page_size total_count of
                Inl e \<Rightarrow> Inl e
              | Inr pg \<Rightarrow> Inr (Inr \<lparr>rs_data = results, rs_pagination = pg\<rparr>)))"

section \<open>estimate_total_count and get_financial_funds_optimized_pagination (optimized_cursor_pagination.py)\<close>

text \<open>
  \<^verbatim>\<open>SELECT COUNT(*) FROM financial_funds WHERE handle_by IN (..) OR order_id IN (..) OR
  customer_id IN (..)\<close>, each disjunct present only when its list is not empty.
\<close>

definition matches_any :: "int list \<Rightarrow> int list \<Rightarrow> int list \<Rightarrow> financial_fund \<Rightarrow> bool" where
  "matches_any hs os cs f \<longleftrightarrow>
     handle_by f \<in> set hs \<or> order_id f \<in> set os \<or> customer_id f \<in> set cs"

definition count_matching :: "database \<Rightarrow> int list \<Rightarrow> int list \<Rightarrow> int list \<Rightarrow> int" where
  "count_matching db hs os cs = int (length (filter (matches_any hs os cs) (db_financial_funds db)))"

text \<open>
  The estimate scales the count of a sample:
  \<^verbatim>\<open>int(sample_count * (total_ids / sample_ids))\<close>, computed in binary floating point. The
  floating-point product is not modelled: \<open>scale sample_count total_ids sample_ids\<close> stands
  for it, and every statement below holds for any \<open>scale\<close>.
\<close>

definition estimate_total_count ::
  "(int \<Rightarrow> int \<Rightarrow> int \<Rightarrow> int) \<Rightarrow> database \<Rightarrow> int list \<Rightarrow> int list \<Rightarrow> int list \<Rightarrow> int" where
  "estimate_total_count scale db handle_by_ids order_ids customer_ids =
     (let sample_size = min 100 (min (length handle_by_ids)
                          (min (length order_ids) (length customer_ids)))
      in if sample_size = 0 then 0
         else
           (let sample_handle_by = take sample_size handle_by_ids;
                sample_order_ids = take sample_size order_ids;
                sample_customer_ids = take sample_size customer_ids;
                sample_count = count_matching db sample_handle_by sample_order_ids
                                 sample_customer_ids;
                total_ids = int (length handle_by_ids + length order_ids + length customer_ids);
                sample_ids = int (length sample_handle_by + length sample_order_ids
                                    + length sample_customer_ids)
            in if sample_ids > 0 then scale sample_count total_ids sample_ids else 0))"

text \<open>
  One round of the loop over the batch indices of
  \<^verbatim>\<open>get_financial_funds_optimized_pagination\<close>. The loop state is \<^verbatim>\<open>all_results\<close> and
  \<^verbatim>\<open>current_offset\<close>; a round either leaves the loop (\<open>Inl\<close>: a \<^verbatim>\<open>break\<close> with the results, or
  an exception) or hands the next state on (\<open>Inr\<close>; \<^verbatim>\<open>continue\<close> included). \<open>k\<close> and \<open>desc\<close>
  are the sort column and the direction, \<open>None\<close> when the statement that uses them would be
  rejected.
\<close>

definition optimized_step ::
  "database \<Rightarrow> int list \<Rightarrow> int list \<Rightarrow> int list \<Rightarrow> nat \<Rightarrow> int \<Rightarrow> int
     \<Rightarrow> (financial_fund \<Rightarrow> int) option \<Rightarrow> bool option
     \<Rightarrow> nat \<Rightarrow> fund_view list \<times> int
     \<Rightarrow> (error + fund_view list) + (fund_view list \<times> int)" where
  "optimized_step db hs os cs batch_size offset page_size k desc batch_idx st =
     (let all_results = fst st; current_offset = snd st;
          start_idx = batch_idx * batch_size;
          batch_handle_by = take batch_size (drop start_idx hs);
          batch_order_ids = take batch_size (drop start_idx os);
          batch_customer_ids = take batch_size (drop start_idx cs)
      in if batch_handle_by = [] \<and> batch_order_ids = [] \<and> batch_customer_ids = [] then Inr st
         else
           (let batch_count = count_matching db batch_handle_by batch_order_ids
                                batch_customer_ids
            in if current_offset < offset \<and> current_offset + batch_count \<le> offset then
                 Inr (all_results, current_offset + batch_count)
               else
                 (let skip_in_batch = (if current_offset < offset then offset - current_offset
                                       else 0);
                      current_offset' = (if current_offset < offset then offset
                                         else current_offset);
                      remaining_needed = page_size - int (length all_results)
                  in if remaining_needed \<le> 0 then Inl (Inr all_results)
                     else
                       (case (k, desc) of
                          (Some key, Some d) \<Rightarrow>
                            (case limit_offset remaining_needed skip_in_batch
                                    (join_users db (order_by key d
                                       (filter (matches_any batch_handle_by batch_order_ids
                                                  batch_customer_ids)
                                          (db_financial_funds db)))) of
                               Inl e \<Rightarrow> Inl (Inl e)
                             | Inr batch_results \<Rightarrow>
                                 (if int (length (all_results @ batch_results)) \<ge> page_size
                                  then Inl (Inr (py_slice (all_results @ batch_results)
                                                   0 page_size))
                                  else Inr (all_results @ batch_results, current_offset')))
                        | _ \<Rightarrow> Inl (Inl BackendError)))))"

fun optimized_loop ::
  "(nat \<Rightarrow> fund_view list \<times> int \<Rightarrow> (error + fund_view list) + (fund_view list \<times> int))
     \<Rightarrow> nat list \<Rightarrow> fund_view list \<times> int \<Rightarrow> error + fund_view list" where
  "optimized_loop step [] st = Inr (fst st)"
| "optimized_loop step (batch_idx # rest) st =
     (case step batch_idx st of
        Inl outcome \<Rightarrow> outcome
      | Inr st' \<Rightarrow> optimized_loop step rest st')"

definition get_financial_funds_optimized_pagination ::
  "(int \<Rightarrow> int \<Rightarrow> int \<Rightarrow> int) \<Rightarrow> database \<Rightarrow> int list \<Rightarrow> int list \<Rightarrow> int list
     \<Rightarrow> int \<Rightarrow> int \<Rightarrow> string \<Rightarrow> string \<Rightarrow> bool \<Rightarrow> error + fund_view list \<times> int" where
  "get_financial_funds_optimized_pagination scale db handle_by_ids order_ids customer_ids
     page page_size sort_by sort_order estimate_total =
     (let batch_size = (if page \<le> 10 then 500 else 1000);
          offset = (page - 1) * page_size;
          total_count = (if page = 1 \<and> estimate_total
                         then estimate_total_count scale db handle_by_ids order_ids customer_ids
                         else 0);
          max_ids = max (length handle_by_ids) (max (length order_ids) (length customer_ids));
          total_batches = (if max_ids > 0 then (max_ids + batch_size - 1) div batch_size else 0)
      in case optimized_loop
                (optimized_step db handle_by_ids order_ids customer_ids batch_size offset
                   page_size (fund_column sort_by) (sql_direction sort_order))
                [0..<total_batches] ([], 0) of
           Inl e \<Rightarrow> Inl e
         | Inr all_results \<Rightarrow> Inr (all_results, total_count))"

text \<open>
  \<^verbatim>\<open>smart_pagination_service\<close> asks for the estimate on the first page only
  (\<^verbatim>\<open>estimate_total=(page == 1)\<close>) and builds the page information from whatever count comes
  back. As in \<^verbatim>\<open>accurate_pagination_service\<close>, a database error becomes the error reply.
\<close>

definition smart_pagination_service ::
  "(int \<Rightarrow> int \<Rightarrow> int \<Rightarrow> int) \<Rightarrow> database \<Rightarrow> int \<Rightarrow> int \<Rightarrow> int \<Rightarrow> string \<Rightarrow> string
     \<Rightarrow> error + (error + response)" where
  "smart_pagination_service scale db supervisor_id page page_size sort_by sort_order =
     (let subs = resolve_subordinate_ids db supervisor_id;
          order_ids = get_order_ids_for_users db subs;
          customer_ids = get_customer_ids_for_users db subs
      in case get_financial_funds_optimized_pagination scale db subs order_ids customer_ids
                page page_size sort_by sort_order (page = 1) of
           Inl e \<Rightarrow> Inr (Inl e)
         | Inr (results, total_count) \<Rightarrow>
             (case page_info page page_size total_count of
                Inl e \<Rightarrow> Inl e
              | Inr pg \<Rightarrow> Inr (Inr \<lparr>rs_data = results, rs_pagination = pg\<rparr>)))"

section \<open>get_financial_funds_with_pagination_v3 (alternative_permission_with_pagination.py)\<close>

text \<open>
  The \<^verbatim>\<open>WHERE\<close> clause is assembled as text:
  \<^verbatim>\<open>
  where_clause = ' OR '.join(conditions)
  if last_id > 0:
      if sort_order.upper() == "ASC":
          where_clause += f" AND f.{sort_by} > %s"
      else:
          where_clause += f" AND f.{sort_by} < %s"
  \<close>
  so it is modelled as the sequence of its tokens, and evaluated the way SQL reads it:
  \<^verbatim>\<open>AND\<close> binds tighter than \<^verbatim>\<open>OR\<close>, and no parentheses are written.
\<close>

datatype token = InList column "int list" | KeyGreater int | KeyLess int | OR | AND

fun join_or :: "token list \<Rightarrow> token list" where
  "join_or [] = []"
| "join_or [c] = [c]"
| "join_or (c # cs) = c # OR # join_or cs"

text \<open>The clause split at its \<^verbatim>\<open>OR\<close>s: each part is a conjunction.\<close>

fun disjuncts :: "token list \<Rightarrow> token list list" where
  "disjuncts [] = [[]]"
| "disjuncts (OR # ts) = [] # disjuncts ts"
| "disjuncts (t # ts) = (case disjuncts ts of [] \<Rightarrow> [[t]] | g # gs \<Rightarrow> (t # g) # gs)"

fun holds :: "(financial_fund \<Rightarrow> int) \<Rightarrow> financial_fund \<Rightarrow> token \<Rightarrow> bool" where
  "holds k f (InList col ids) \<longleftrightarrow> col_val col f \<in> set ids"
| "holds k f (KeyGreater v) \<longleftrightarrow> k f > v"
| "holds k f (KeyLess v) \<longleftrightarrow> k f < v"
| "holds k f OR \<longleftrightarrow> True"
| "holds k f AND \<longleftrightarrow> True"

definition where_holds :: "(financial_fund \<Rightarrow> int) \<Rightarrow> token list \<Rightarrow> financial_fund \<Rightarrow> bool" where
  "where_holds k clause f \<longleftrightarrow> list_ex (list_all (holds k f)) (disjuncts clause)"

definition v3_conditions :: "int list \<Rightarrow> int list \<Rightarrow> int list \<Rightarrow> token list" where
  "v3_conditions handle_by_ids order_ids customer_ids =
     (if handle_by_ids = [] then [] else [InList HandleBy handle_by_ids])
     @ (if order_ids = [] then [] else [InList OrderId order_ids])
     @ (if customer_ids = [] then [] else [InList CustomerId customer_ids])"

definition v3_where_clause :: "token list \<Rightarrow> int \<Rightarrow> string \<Rightarrow> token list" where
  "v3_where_clause conditions last_id sort_order =
     join_or conditions
     @ (if last_id > 0 then
          (if map upper_char sort_order = ''ASC'' then [AND, KeyGreater last_id]
           else [AND, KeyLess last_id])
        else [])"

text \<open>
  The query asks for one row more than the page (\<^verbatim>\<open>LIMIT page_size + 1\<close>) and orders by
  the sort column alone. The result is the page and \<^verbatim>\<open>has_next\<close>.
\<close>

definition get_financial_funds_with_pagination_v3 ::
  "database \<Rightarrow> int list \<Rightarrow> int list \<Rightarrow> int list \<Rightarrow> int \<Rightarrow> int \<Rightarrow> string \<Rightarrow> string
     \<Rightarrow> error + fund_view list \<times> bool" where
  "get_financial_funds_with_pagination_v3 db handle_by_ids order_ids customer_ids last_id
     page_size sort_by sort_order =
     (let conditions = v3_conditions handle_by_ids order_ids customer_ids
      in if conditions = [] then Inr ([], False)
         else
           (case (fund_column sort_by, sql_direction sort_order) of
              (Some k, Some desc) \<Rightarrow>
                (case limit_offset (page_size + 1) 0
                        (join_users db (order_by k desc
                           (filter (where_holds k (v3_where_clause conditions last_id sort_order))
                              (db_financial_funds db)))) of
                   Inl e \<Rightarrow> Inl e
                 | Inr results \<Rightarrow>
                     (if int (length results) > page_size then Inr (butlast results, True)
                      else Inr (results, False)))
            | _ \<Rightarrow> Inl BackendError))"

section \<open>DatabasePermissionService (database.py)\<close>

text \<open>
  \<^verbatim>\<open>
  WITH RECURSIVE subordinates(id, depth) AS (
      VALUES(?, 0)
      UNION
      SELECT u.id, s.depth + 1 FROM users u, subordinates s
      WHERE u.parent_id = s.id AND s.depth < 3
      LIMIT 1000)
  SELECT id FROM subordinates
  \<close>
  SQLite evaluates a recursive table with a queue: it takes one row off the queue, adds it
  to the table, and runs the recursive select on that row alone, queueing the rows that
  have never been queued before (\<^verbatim>\<open>UNION\<close>); the recursion stops when the queue is empty or
  the table has reached the \<^verbatim>\<open>LIMIT\<close>.
\<close>

definition cte_step :: "user list \<Rightarrow> int \<times> nat \<Rightarrow> (int \<times> nat) list" where
  "cte_step us row =
     map (\<lambda>u. (uid u, snd row + 1))
       (filter (\<lambda>u. parent_id u = Some (fst row) \<and> snd row < 3) us)"

definition enqueue_new ::
  "(int \<times> nat) list \<Rightarrow> (int \<times> nat) list \<times> (int \<times> nat) list
     \<Rightarrow> (int \<times> nat) list \<times> (int \<times> nat) list" where
  "enqueue_new rows qs =
     fold (\<lambda>r (queue, queued). if r \<in> set queued then (queue, queued)
                                 else (queue @ [r], queued @ [r])) rows qs"

function cte_subordinates ::
  "user list \<Rightarrow> (int \<times> nat) list \<Rightarrow> (int \<times> nat) list \<Rightarrow> (int \<times> nat) list
     \<Rightarrow> (int \<times> nat) list" where
  "cte_subordinates us queue queued tbl =
     (if queue = [] \<or> length tbl \<ge> 1000 then tbl
      else cte_subordinates us
             (fst (enqueue_new (cte_step us (hd queue)) (tl queue, queued)))
             (snd (enqueue_new (cte_step us (hd queue)) (tl queue, queued)))
             (tbl @ [hd queue]))"
  by pat_completeness auto
termination
  by (relation "measure (\<lambda>(us, queue, queued, tbl). 1000 - length tbl)") auto

declare cte_subordinates.simps [simp del]

text \<open>
  A Python set of ids is kept as a list without repetitions (the order in which a set is
  iterated is the interpreter's; the model fixes one, and no statement below depends on
  it).
  \<^verbatim>\<open>subordinates.add(user_id)\<close> follows the query.
\<close>

definition db_get_subordinates :: "database \<Rightarrow> int \<Rightarrow> int list" where
  "db_get_subordinates db user_id =
     remdups (map fst (cte_subordinates (db_users db) [(user_id, 0)] [(user_id, 0)] [])
              @ [user_id])"

record db_scope =
  ds_is_admin :: bool
  ds_handle_by :: "int list"
  ds_order_ids :: "int list"
  ds_customer_ids :: "int list"

text \<open>
  Which rows a \<^verbatim>\<open>LIMIT\<close> without \<^verbatim>\<open>ORDER BY\<close> keeps is the engine's choice; the model
  keeps the first rows in table order. The joins with \<^verbatim>\<open>users\<close> keep an order or customer
  once for every user row with the owner's id.
\<close>

definition owned_by_user_rows :: "user list \<Rightarrow> int list \<Rightarrow> int \<Rightarrow> bool list" where
  "owned_by_user_rows us subs owner =
     map (\<lambda>u. True) (filter (\<lambda>u. uid u = owner \<and> owner \<in> set subs) us)"

definition db_get_accessible_data_scope :: "database \<Rightarrow> user \<Rightarrow> db_scope" where
  "db_get_accessible_data_scope db usr =
     (if role usr = ''admin'' then
        \<lparr>ds_is_admin = True,
         ds_handle_by = remdups (take 100 (map uid (db_users db))),
         ds_order_ids = remdups (take 100 (map o_order_id (db_orders db))),
         ds_customer_ids = remdups (take 100 (map c_customer_id (db_customers db)))\<rparr>
      else if role usr = ''supervisor'' then
        (let subordinates = db_get_subordinates db (uid usr)
         in \<lparr>ds_is_admin = False,
             ds_handle_by = subordinates,
             ds_order_ids =
               remdups (take 1000 (concat (map (\<lambda>ord. map (\<lambda>b. o_order_id ord)
                  (owned_by_user_rows (db_users db) subordinates (o_user_id ord)))
                  (db_orders db)))),
             ds_customer_ids =
               remdups (take 1000 (concat (map (\<lambda>c. map (\<lambda>b. c_customer_id c)
                  (owned_by_user_rows (db_users db) subordinates (c_admin_user_id c)))
                  (db_customers db))))\<rparr>)
      else if role usr = ''staff'' then
        \<lparr>ds_is_admin = False,
         ds_handle_by = [uid usr],
         ds_order_ids =
           remdups (take 10000 (map o_order_id
             (filter (\<lambda>ord. o_user_id ord = uid usr) (db_orders db)))),
         ds_customer_ids =
           remdups (take 10000 (map c_customer_id
             (filter (\<lambda>c. c_admin_user_id c = uid usr) (db_customers db))))\<rparr>
      else \<lparr>ds_is_admin = False, ds_handle_by = [], ds_order_ids = [], ds_customer_ids = []\<rparr>)"

section \<open>DatabaseFinancialService.get_funds (database.py)\<close>

text \<open>
  \<^verbatim>\<open>
  def execute_chunked_query(field_name, id_list, max_chunk_size):
      results = []
      for i in range(0, len(id_list), max_chunk_size):
          chunk = id_list[i:i + max_chunk_size]
          ... WHERE {field_name} IN (chunk) LIMIT 1000
          results.extend(cursor.fetchall())
          if len(results) >= 1000:
              break
      return results
  \<close>
\<close>

fun chunked_loop ::
  "database \<Rightarrow> column \<Rightarrow> int list list \<Rightarrow> financial_fund list \<Rightarrow> financial_fund list" where
  "chunked_loop db col [] results = results"
| "chunked_loop db col (chunk # chunks) results =
     (if length (results @ take 1000 (select_funds_in db col chunk)) \<ge> 1000
      then results @ take 1000 (select_funds_in db col chunk)
      else chunked_loop db col chunks (results @ take 1000 (select_funds_in db col chunk)))"

definition execute_chunked_query ::
  "database \<Rightarrow> column \<Rightarrow> int list \<Rightarrow> nat \<Rightarrow> financial_fund list" where
  "execute_chunked_query db col id_list max_chunk_size =
     chunked_loop db col (batches max_chunk_size id_list) []"

text \<open>
  \<^verbatim>\<open>
  for row in all_results[:2000]:
      fund_id = row[0]
      if fund_id not in seen_ids:
          filtered_funds.append(fund); seen_ids.add(fund_id)
          if len(filtered_funds) >= 1000:
              break
  \<close>
\<close>

fun take_unique ::
  "financial_fund list \<Rightarrow> int list \<Rightarrow> financial_fund list \<Rightarrow> financial_fund list" where
  "take_unique [] seen_ids filtered_funds = filtered_funds"
| "take_unique (row # rows) seen_ids filtered_funds =
     (if fund_id row \<notin> set seen_ids then
        (if length (filtered_funds @ [row]) \<ge> 1000 then filtered_funds @ [row]
         else take_unique rows (fund_id row # seen_ids) (filtered_funds @ [row]))
      else take_unique rows seen_ids filtered_funds)"

definition gather_results :: "database \<Rightarrow> db_scope \<Rightarrow> financial_fund list" where
  "gather_results db sc =
     (let r1 = (if ds_handle_by sc \<noteq> []
                then execute_chunked_query db HandleBy (ds_handle_by sc) 500 else []);
          r2 = (if length r1 < 1000 \<and> ds_order_ids sc \<noteq> []
                then r1 @ execute_chunked_query db OrderId (ds_order_ids sc) 500 else r1);
          r3 = (if length r2 < 1000 \<and> ds_customer_ids sc \<noteq> []
                then r2 @ execute_chunked_query db CustomerId (ds_customer_ids sc) 500 else r2)
      in r3)"

definition db_get_funds :: "database \<Rightarrow> user \<Rightarrow> financial_fund list" where
  "db_get_funds db usr =
     (let sc = db_get_accessible_data_scope db usr;
          all_results = (if ds_is_admin sc then take 1000 (db_financial_funds db)
                         else gather_results db sc)
      in take_unique (take 2000 (sort_key fund_id all_results)) [] [])"

section \<open>The authorization rule, as the specification words it\<close>











section \<open>DatabaseApiGateway (database.py)\<close>

record db_api_gateway =
  gw_db :: database
  gw_current_user :: "user option"

text \<open>
  Three lookups in turn: a user of the role among the ids up to 4, any user of the role,
  user 1. When the third finds no row, \<^verbatim>\<open>user_data\<close> is \<^verbatim>\<open>None\<close> and \<^verbatim>\<open>user_data[0]\<close>
  raises \<^verbatim>\<open>TypeError\<close>.
\<close>

definition db_authenticate :: "db_api_gateway \<Rightarrow> string \<Rightarrow> error + db_api_gateway" where
  "db_authenticate gw r =
     (case find (\<lambda>u. role u = r \<and> uid u \<le> 4) (db_users (gw_db gw)) of
        Some u \<Rightarrow> Inr (gw\<lparr>gw_current_user := Some u\<rparr>)
      | None \<Rightarrow>
          (case find (\<lambda>u. role u = r) (db_users (gw_db gw)) of
             Some u \<Rightarrow> Inr (gw\<lparr>gw_current_user := Some u\<rparr>)
           | None \<Rightarrow>
               (case find (\<lambda>u. uid u = 1) (db_users (gw_db gw)) of
                  Some u \<Rightarrow> Inr (gw\<lparr>gw_current_user := Some u\<rparr>)
                | None \<Rightarrow> Inl TypeError)))"

definition db_api_get_funds :: "db_api_gateway \<Rightarrow> error + financial_fund list" where
  "db_api_get_funds gw =
     (case gw_current_user gw of
        None \<Rightarrow> Inl NotLoggedIn
      | Some u \<Rightarrow> Inr (db_get_funds (gw_db gw) u))"

section \<open>MySQLPermissionService.get_subordinates (mysql_database.py)\<close>

text \<open>
  \<^verbatim>\<open>
  subordinates = {user_id}  # Always include the user themselves
  cursor.execute("""WITH RECURSIVE subordinates AS (
      SELECT id FROM users WHERE id = %s
      UNION ALL
      SELECT u.id FROM users u JOIN subordinates s ON u.parent_id = s.id)
  SELECT id FROM subordinates""", (user_id,))
  subordinates = {row[0] for row in cursor.fetchall()}
  \<close>
  MySQL runs the recursive part on the rows of the previous round until a round yields
  none, and aborts the statement after \<^verbatim>\<open>cte_max_recursion_depth\<close> rounds (1000 unless
  configured otherwise). The second assignment replaces the set of the first.
\<close>

fun mysql_cte :: "user list \<Rightarrow> nat \<Rightarrow> int list \<Rightarrow> error + int list" where
  "mysql_cte us n [] = Inr []"
| "mysql_cte us 0 (r # rs) = Inl RecursionLimit"
| "mysql_cte us (Suc n) (r # rs) =
     (case mysql_cte us n
             (concat (map (\<lambda>s. map uid (filter (\<lambda>u. parent_id u = Some s) us)) (r # rs))) of
        Inl e \<Rightarrow> Inl e
      | Inr deeper \<Rightarrow> Inr ((r # rs) @ deeper))"

definition mysql_get_subordinates :: "database \<Rightarrow> int \<Rightarrow> error + int set" where
  "mysql_get_subordinates db user_id =
     (case mysql_cte (db_users db) 1001
             (map uid (filter (\<lambda>u. uid u = user_id) (db_users db))) of
        Inl e \<Rightarrow> Inl e
      | Inr rows \<Rightarrow> Inr (set rows))"

section \<open>Reading all pages of get_paginated_financial_data\<close>

text \<open>
  A client that asks for page 1, 2, ... with the same arguments until \<^verbatim>\<open>has_next\<close> is false,
  and concatenates the items. The cache is handed from one call to the next. The number
  of pages a call reports depends on the cached or computed permissions only, and the first
  call leaves them in the cache, so the reading ends.
\<close>

text \<open>
  The list every page is cut from when the cache holds the user's current permissions (or
  nothing): the deduplicated union of the three dimensions, sorted.
\<close>

definition sorted_union :: "backend \<Rightarrow> int \<Rightarrow> string \<Rightarrow> string \<Rightarrow> financial_fund list" where
  "sorted_union be supervisor_id sort_by sort_order =
     py_sort (memory_sort_key sort_by) (is_desc sort_order)
       (get_financial_funds_parallel be
          (subordinate_ids (query_permissions (be_db be) supervisor_id))
          (p_order_ids (query_permissions (be_db be) supervisor_id))
          (p_customer_ids (query_permissions (be_db be) supervisor_id)))"

definition served_pages ::
  "backend \<Rightarrow> permission_cache \<Rightarrow> int \<Rightarrow> int \<Rightarrow> string \<Rightarrow> string \<Rightarrow> int" where
  "served_pages be cache supervisor_id page_size sort_by sort_order =
     (case fst (get_paginated_financial_data be cache supervisor_id 1 page_size sort_by
                  sort_order) of
        Inl e \<Rightarrow> 0
      | Inr r \<Rightarrow> pg_total_pages (rs_pagination r))"

lemma get_user_permissions_again:
  "get_user_permissions db (snd (get_user_permissions db cache sid)) sid =
     (fst (get_user_permissions db cache sid), snd (get_user_permissions db cache sid))"
  by (simp add: get_user_permissions_def Let_def split: option.splits)

lemma paginated_cache:
  "snd (get_paginated_financial_data be cache sid page ps sb so) =
     snd (get_user_permissions (be_db be) cache sid)"
  by (simp add: get_paginated_financial_data_def Let_def split: prod.splits sum.splits)

lemma paginated_total_pages:
  "get_paginated_financial_data be cache sid page ps sb so = (Inr r, cache') \<Longrightarrow>
   pg_total_pages (rs_pagination r) = served_pages be cache sid ps sb so \<and>
   pg_has_next (rs_pagination r) = (page < served_pages be cache sid ps sb so)"
  by (auto simp add: served_pages_def get_paginated_financial_data_def page_info_def Let_def
      split: prod.splits sum.splits)

lemma served_pages_again:
  "served_pages be (snd (get_paginated_financial_data be cache sid page ps sb so)) sid ps sb so
     = served_pages be cache sid ps sb so"
  unfolding paginated_cache
  by (simp add: served_pages_def get_paginated_financial_data_def get_user_permissions_again
      Let_def split: prod.splits)

function all_pages ::
  "backend \<Rightarrow> permission_cache \<Rightarrow> int \<Rightarrow> int \<Rightarrow> string \<Rightarrow> string \<Rightarrow> int
     \<Rightarrow> error + fund_view list" where
  "all_pages be cache supervisor_id page_size sort_by sort_order page =
     (case get_paginated_financial_data be cache supervisor_id page page_size sort_by
             sort_order of
        (Inl e, cache') \<Rightarrow> Inl e
      | (Inr r, cache') \<Rightarrow>
          (if pg_has_next (rs_pagination r) then
             (case all_pages be cache' supervisor_id page_size sort_by sort_order (page + 1) of
                Inl e \<Rightarrow> Inl e
              | Inr rest \<Rightarrow> Inr (rs_data r @ rest))
           else Inr (rs_data r)))"
  by pat_completeness auto
termination
proof (relation "measure (\<lambda>(be, cache, sid, ps, sb, so, page).
                   nat (served_pages be cache sid ps sb so - page))", goal_cases)
  case 1
  then show ?case by simp
next
  case (2 be cache sid ps sb so page x1 cache' r)
  from 2(1)[symmetric] 2(2)
  have g: "get_paginated_financial_data be cache sid page ps sb so = (Inr r, cache')"
    by simp
  from paginated_total_pages[OF g] 2(3)
  have lt: "page < served_pages be cache sid ps sb so" by simp
  from g have "cache' = snd (get_paginated_financial_data be cache sid page ps sb so)"
    by simp
  then have "served_pages be cache' sid ps sb so = served_pages be cache sid ps sb so"
    by (simp add: served_pages_again)
  with lt show ?case by simp
qed

declare all_pages.simps [simp del]

section \<open>Example tables\<close>

definition mk_user :: "int \<Rightarrow> string \<Rightarrow> int option \<Rightarrow> user" where
  "mk_user i r p = \<lparr>uid = i, name = ''u'', role = r, department = ''d'', parent_id = p\<rparr>"

text \<open>Two users that name each other as parent: a cycle of length two.\<close>

definition cyclic_users :: "(int \<times> user) list" where
  "cyclic_users = [(1, mk_user 1 ''supervisor'' (Some 2)), (2, mk_user 2 ''staff'' (Some 1))]"

definition cyclic_service :: permission_service where
  "cyclic_service = \<lparr>users = cyclic_users, financial_funds = [], orders = [], customers = []\<rparr>"

definition cyclic_db :: database where
  "cyclic_db =
     \<lparr>db_users = map snd cyclic_users, db_user_hierarchy = [], db_orders = [],
      db_customers = [], db_financial_funds = []\<rparr>"

text \<open>
  The scenario of the specification: user 1 (U) has the subordinates 2 (A) and 3 (B);
  user 4 is outside the scope. A owns order 201, B administers customer 301; order 202 and
  customer 302 belong to user 4. Fund 1001 is handled by A (and has A's order 201, so it
  matches two dimensions), fund 1002 has order 201 and an outside handler, fund 1003 has
  customer 301, fund 1004 matches no dimension.
\<close>

definition mk_fund :: "int \<Rightarrow> int \<Rightarrow> int \<Rightarrow> int \<Rightarrow> financial_fund" where
  "mk_fund i h ord c = \<lparr>fund_id = i, handle_by = h, order_id = ord, customer_id = c, amount = 100\<rparr>"

definition scenario_users :: "user list" where
  "scenario_users = [mk_user 1 ''supervisor'' None, mk_user 2 ''staff'' (Some 1),
                     mk_user 3 ''staff'' (Some 1), mk_user 4 ''staff'' None]"

definition scenario_funds :: "financial_fund list" where
  "scenario_funds = [mk_fund 1001 2 201 302, mk_fund 1002 4 201 302,
                     mk_fund 1003 4 202 301, mk_fund 1004 4 202 302]"

definition scenario_db :: database where
  "scenario_db =
     \<lparr>db_users = scenario_users,
      db_user_hierarchy = [\<lparr>h_user_id = 1, h_subordinate_id = 2, h_depth = 1\<rparr>,
                           \<lparr>h_user_id = 1, h_subordinate_id = 3, h_depth = 1\<rparr>],
      db_orders = [\<lparr>o_order_id = 201, o_user_id = 2\<rparr>, \<lparr>o_order_id = 202, o_user_id = 4\<rparr>],
      db_customers = [\<lparr>c_customer_id = 301, c_admin_user_id = 3\<rparr>,
                      \<lparr>c_customer_id = 302, c_admin_user_id = 4\<rparr>],
      db_financial_funds = scenario_funds\<rparr>"

text \<open>The same scenario as the tables of \<^verbatim>\<open>PermissionService\<close>.\<close>

definition scenario_service :: permission_service where
  "scenario_service =
     \<lparr>users = map (\<lambda>u. (uid u, u)) scenario_users,
      financial_funds = scenario_funds,
      orders = [(201, \<lparr>o_order_id = 201, o_user_id = 2\<rparr>),
                (202, \<lparr>o_order_id = 202, o_user_id = 4\<rparr>)],
      customers = [(301, \<lparr>c_customer_id = 301, c_admin_user_id = 3\<rparr>),
                   (302, \<lparr>c_customer_id = 302, c_admin_user_id = 4\<rparr>)]\<rparr>"

definition scenario_backend :: backend where
  "scenario_backend = \<lparr>be_db = scenario_db, be_fails = (\<lambda>col ids. False)\<rparr>"

definition mk_view :: "financial_fund \<Rightarrow> fund_view" where
  "mk_view f = \<lparr>fv_fund = f, fv_handler_name = ''u'', fv_department = ''d''\<rparr>"

text \<open>
  The tables that \<^verbatim>\<open>PermissionService.__init__\<close> sets up (names and departments, Chinese in
  the source, are written in English).
\<close>

definition initial_users :: "(int \<times> user) list" where
  "initial_users =
     [(1, \<lparr>uid = 1, name = ''super admin'', role = ''admin'', department = ''head office'',
           parent_id = None\<rparr>),
      (2, \<lparr>uid = 2, name = ''finance supervisor'', role = ''supervisor'',
           department = ''east'', parent_id = Some 1\<rparr>),
      (3, \<lparr>uid = 3, name = ''finance clerk'', role = ''staff'', department = ''east'',
           parent_id = Some 2\<rparr>),
      (4, \<lparr>uid = 4, name = ''finance clerk'', role = ''staff'', department = ''south'',
           parent_id = Some 1\<rparr>)]"

definition initial_service :: permission_service where
  "initial_service =
     \<lparr>users = initial_users,
      financial_funds =
        [\<lparr>fund_id = 1001, handle_by = 3, order_id = 2001, customer_id = 3001, amount = 50000\<rparr>,
         \<lparr>fund_id = 1002, handle_by = 2, order_id = 2002, customer_id = 3002, amount = 80000\<rparr>,
         \<lparr>fund_id = 1003, handle_by = 3, order_id = 2003, customer_id = 3003, amount = 60000\<rparr>],
      orders = [(2001, \<lparr>o_order_id = 2001, o_user_id = 3\<rparr>),
                (2002, \<lparr>o_order_id = 2002, o_user_id = 2\<rparr>),
                (2003, \<lparr>o_order_id = 2003, o_user_id = 3\<rparr>)],
      customers = [(3001, \<lparr>c_customer_id = 3001, c_admin_user_id = 3\<rparr>),
                   (3002, \<lparr>c_customer_id = 3002, c_admin_user_id = 2\<rparr>),
                   (3003, \<lparr>c_customer_id = 3003, c_admin_user_id = 3\<rparr>)]\<rparr>"

text \<open>The same tables in the database of \<^verbatim>\<open>DatabasePermissionService\<close>.\<close>

definition initial_db :: database where
  "initial_db =
     \<lparr>db_users = map snd initial_users,
      db_user_hierarchy = [],
      db_orders = map snd (orders initial_service),
      db_customers = map snd (customers initial_service),
      db_financial_funds = financial_funds initial_service\<rparr>"



text \<open>A scaling for the estimate that computes with exact fractions.\<close>

definition exact_scale :: "int \<Rightarrow> int \<Rightarrow> int \<Rightarrow> int" where
  "exact_scale sample_count total_ids sample_ids = sample_count * total_ids div sample_ids"

text \<open>The scenario with a backend on which every query of the order dimension fails.\<close>

definition order_down_backend :: backend where
  "order_down_backend = \<lparr>be_db = scenario_db, be_fails = (\<lambda>col ids. col = OrderId)\<rparr>"

section \<open>Subordinate resolution on a cyclic table\<close>

lemma children_of_cyclic:
  "children_of cyclic_users 1 = [2]" "children_of cyclic_users 2 = [1]"
  by (simp_all add: children_of_def cyclic_users_def mk_user_def)

lemma subordinates_loop_cyclic_never_returns:
  assumes ret: "subordinates_loop us stack subs = Some r"
  shows "\<not> (us = cyclic_users \<and> (stack = [1] \<or> stack = [2]))"
proof (rule subordinates_loop.raw_induct
    [where P = "\<lambda>us stack subs r. \<not> (us = cyclic_users \<and> (stack = [1] \<or> stack = [2]))", OF _ ret])
  fix rec :: "(int \<times> user) list \<Rightarrow> int list \<Rightarrow> int set \<Rightarrow> int set option"
  fix us stack subs r
  assume IH: "\<And>us stack subs r. rec us stack subs = Some r \<Longrightarrow>
                \<not> (us = cyclic_users \<and> (stack = [1] \<or> stack = [2]))"
  assume body: "(if stack = [] then Some subs
      else rec us (butlast stack @ children_of us (last stack)) (insert (last stack) subs)) = Some r"
  show "\<not> (us = cyclic_users \<and> (stack = [1] \<or> stack = [2]))"
  proof
    assume h: "us = cyclic_users \<and> (stack = [1] \<or> stack = [2])"
    from h consider "stack = [1]" | "stack = [2]" by blast
    then show False
    proof cases
      case 1
      with body h have "rec cyclic_users [2] (insert 1 subs) = Some r"
        by (simp add: children_of_cyclic)
      from IH[OF this] show False by simp
    next
      case 2
      with body h have "rec cyclic_users [1] (insert 2 subs) = Some r"
        by (simp add: children_of_cyclic)
      from IH[OF this] show False by simp
    qed
  qed
qed

text \<open>
  The recursive query of \<^verbatim>\<open>DatabasePermissionService.get_subordinates\<close> is bounded by its
  depth and row limits, so it returns on the same cyclic table.
\<close>

lemma db_get_subordinates_on_cycle: "set (db_get_subordinates cyclic_db 1) = {1, 2}"
  by code_simp

text \<open>
  C4. On a user table whose \<^verbatim>\<open>parent_id\<close> references form a cycle (1 reports to 2 and 2
  reports to 1), \<^verbatim>\<open>PermissionService.get_subordinates\<close> does not terminate: the traversal keeps
  no visited set, so the two users are pushed on the stack in turn for ever.
\<close>

theorem get_subordinates_diverges_on_cycle:
  "get_subordinates cyclic_service 1 = None"
proof (cases "get_subordinates cyclic_service 1")
  case None
  then show ?thesis .
next
  case (Some r)
  then have "subordinates_loop cyclic_users [1] {} = Some r"
    by (simp add: get_subordinates_def cyclic_service_def)
  from subordinates_loop_cyclic_never_returns[OF this] show ?thesis by simp
qed

section \<open>Batches, the batched executor and the merge by primary key\<close>

lemma concat_batches: "0 < n \<Longrightarrow> concat (batches n xs) = xs"
proof (induction n xs rule: batches.induct)
  case (1 n xs)
  then show ?case by (subst batches.simps) auto
qed

lemma batches_step:
  "0 < n \<Longrightarrow> xs \<noteq> [] \<Longrightarrow> batches n xs = take n xs # batches n (drop n xs)"
  by (subst batches.simps) simp

lemma batches_Nil: "batches n [] = []"
  by (subst batches.simps) simp

lemma batches_four:
  assumes len: "length xs = 3 * n + 1" and n: "0 < n"
  shows "batches n xs =
           [take n xs, take n (drop n xs), take n (drop (2 * n) xs), drop (3 * n) xs]"
proof -
  have e2: "n + n = 2 * n" and e3: "n + 2 * n = 3 * n" by simp_all
  have ne1: "xs \<noteq> []" using len by auto
  have ne2: "drop n xs \<noteq> []" using len n by simp
  have ne3: "drop (2 * n) xs \<noteq> []" using len n by simp
  have ne4: "drop (3 * n) xs \<noteq> []" using len n by simp
  have d4: "drop n (drop (3 * n) xs) = []" using len n by simp
  have t4: "take n (drop (3 * n) xs) = drop (3 * n) xs" using len n by simp
  have "batches n xs = take n xs # batches n (drop n xs)"
    by (rule batches_step[OF n ne1])
  also have "batches n (drop n xs) = take n (drop n xs) # batches n (drop (2 * n) xs)"
    using batches_step[OF n ne2] by (simp add: e2)
  also have "batches n (drop (2 * n) xs)
               = take n (drop (2 * n) xs) # batches n (drop (3 * n) xs)"
    using batches_step[OF n ne3] by (simp add: e3)
  also have "batches n (drop (3 * n) xs) = [drop (3 * n) xs]"
    using batches_step[OF n ne4] by (simp only: d4 t4 batches_Nil)
  finally show ?thesis .
qed

lemma batches_nonempty: "b \<in> set (batches n xs) \<Longrightarrow> b \<noteq> [] \<and> length b \<le> n"
proof (induction n xs rule: batches.induct)
  case (1 n xs)
  show ?case
  proof (cases "n = 0 \<or> xs = []")
    case True
    with 1(2) show ?thesis by (subst (asm) batches.simps) auto
  next
    case False
    then have "batches n xs = take n xs # batches n (drop n xs)"
      by (subst batches.simps) simp
    with 1(2) consider "b = take n xs" | "b \<in> set (batches n (drop n xs))" by auto
    then show ?thesis
    proof cases
      case 1
      with False show ?thesis by auto
    next
      case 2
      with "1.IH" False show ?thesis by blast
    qed
  qed
qed

lemma run_batches_healthy:
  "\<forall>b. \<not> be_fails be col b \<Longrightarrow>
   run_batches be col bs sent acc =
     (sent @ bs, Inr (acc @ concat (map (select_funds_in (be_db be) col) bs)))"
  by (induction bs arbitrary: sent acc) (simp_all add: run_fund_query_def)

lemma run_batches_success:
  "run_batches be col bs sent acc = (s, Inr rows) \<Longrightarrow>
   s = sent @ bs \<and> rows = acc @ concat (map (select_funds_in (be_db be) col) bs)"
proof (induction bs arbitrary: sent acc)
  case Nil
  then show ?case by simp
next
  case (Cons b bs)
  show ?case
  proof (cases "be_fails be col b")
    case True
    with Cons.prems show ?thesis by (simp add: run_fund_query_def)
  next
    case False
    with Cons.prems have
      "run_batches be col bs (sent @ [b]) (acc @ select_funds_in (be_db be) col b) = (s, Inr rows)"
      by (simp add: run_fund_query_def)
    from Cons.IH[OF this] show ?thesis by simp
  qed
qed

lemma set_select_batches:
  "0 < n \<Longrightarrow> set (concat (map (select_funds_in db col) (batches n ids))) =
     set (select_funds_in db col ids)"
proof -
  assume n: "0 < n"
  have "set (concat (map (select_funds_in db col) bs)) = set (select_funds_in db col (concat bs))" for bs
    by (induction bs) (auto simp: select_funds_in_def)
  from this[of "batches n ids"] show ?thesis by (simp add: concat_batches[OF n])
qed

lemma set_select_funds_in:
  "set (select_funds_in db col ids) = {f \<in> set (db_financial_funds db). col_val col f \<in> set ids}"
  by (auto simp: select_funds_in_def)


lemma insert_ignore_Nil: "insert_ignore [] tbl = tbl"
  by (simp add: insert_ignore_def)

lemma insert_ignore_Cons:
  "insert_ignore (r # rows) tbl =
     insert_ignore rows (if fund_id r \<in> fund_id ` set tbl then tbl else tbl @ [r])"
  by (simp add: insert_ignore_def)

lemma insert_ignore_append:
  "insert_ignore (xs @ ys) tbl = insert_ignore ys (insert_ignore xs tbl)"
  by (simp add: insert_ignore_def)

lemma set_insert_ignore_subset: "set (insert_ignore rows tbl) \<subseteq> set tbl \<union> set rows"
proof (induction rows arbitrary: tbl)
  case Nil
  then show ?case by (simp add: insert_ignore_Nil)
next
  case (Cons r rows)
  have "set (insert_ignore (r # rows) tbl)
          \<subseteq> set (if fund_id r \<in> fund_id ` set tbl then tbl else tbl @ [r]) \<union> set rows"
    unfolding insert_ignore_Cons by (rule Cons.IH)
  also have "\<dots> \<subseteq> set tbl \<union> set (r # rows)" by auto
  finally show ?case .
qed

lemma ids_insert_ignore:
  "fund_id ` set (insert_ignore rows tbl) = fund_id ` set tbl \<union> fund_id ` set rows"
proof (induction rows arbitrary: tbl)
  case Nil
  then show ?case by (simp add: insert_ignore_Nil)
next
  case (Cons r rows)
  show ?case unfolding insert_ignore_Cons Cons.IH by auto
qed

lemma distinct_insert_ignore:
  "distinct (map fund_id tbl) \<Longrightarrow> distinct (map fund_id (insert_ignore rows tbl))"
proof (induction rows arbitrary: tbl)
  case Nil
  then show ?case by (simp add: insert_ignore_Nil)
next
  case (Cons r rows)
  from Cons.prems
  have "distinct (map fund_id (if fund_id r \<in> fund_id ` set tbl then tbl else tbl @ [r]))"
    by auto
  from Cons.IH[OF this] show ?case unfolding insert_ignore_Cons .
qed

lemma unique_funds_fold:
  "map fst d = map fund_id (map snd d) \<Longrightarrow>
   map snd (fold (\<lambda>fund d. if fund_id fund \<in> fst ` set d then d else d @ [(fund_id fund, fund)])
              xs d) = insert_ignore xs (map snd d)"
proof (induction xs arbitrary: d)
  case Nil
  then show ?case by (simp add: insert_ignore_Nil)
next
  case (Cons x xs)
  let ?d = "if fund_id x \<in> fst ` set d then d else d @ [(fund_id x, x)]"
  from Cons.prems have inv: "map fst ?d = map fund_id (map snd ?d)" by simp
  from Cons.prems have "fst ` set d = fund_id ` set (map snd d)"
    by (metis list.set_map)
  then have "map snd ?d
      = (if fund_id x \<in> fund_id ` set (map snd d) then map snd d else map snd d @ [x])"
    by simp
  with Cons.IH[OF inv] show ?case by (simp add: insert_ignore_Cons)
qed

lemma unique_funds_insert_ignore: "map snd (unique_funds xs) = insert_ignore xs []"
  using unique_funds_fold[of "[]" xs] by (simp add: unique_funds_def)

lemma length_distinct_ids:
  "distinct (map fund_id xs) \<Longrightarrow> length xs = card (fund_id ` set xs)"
  by (metis distinct_card length_map list.set_map)

lemma length_merged:
  "length (insert_ignore rows []) = card (fund_id ` set rows)"
  using length_distinct_ids[OF distinct_insert_ignore[of "[]" rows]]
  by (simp add: ids_insert_ignore)


lemma insert_batches_eq:
  "insert_batches db col ids tbl =
     insert_ignore (concat (map (select_funds_in db col) (batches 1000 ids))) tbl"
proof -
  have "fold (\<lambda>batch t. insert_ignore (select_funds_in db col batch) t) bs tbl =
        insert_ignore (concat (map (select_funds_in db col) bs)) tbl" for bs
    by (induction bs arbitrary: tbl) (simp_all add: insert_ignore_Nil insert_ignore_append)
  then show ?thesis by (simp add: insert_batches_def)
qed

text \<open>
  C9. With an id list of length \<open>3 * batch_size + 1\<close> (in particular 3001 ids with the
  default batch size 1000) and a backend that answers, \<^verbatim>\<open>execute_batch_query\<close> sends exactly
  four batch queries: the three full slices of the list and the slice with the last id. The
  rows it returns are the rows of \<^verbatim>\<open>financial_funds\<close> that match some id of the list, and the
  merge by \<^verbatim>\<open>fund_id\<close> (the dictionary of \<^verbatim>\<open>get_financial_funds_parallel\<close>, the primary key of
  the temporary table) has as many rows as there are distinct matching fund ids.
\<close>

theorem batched_executor_four_chunks:
  assumes len: "length ids = 3 * batch_size + 1"
    and pos: "0 < batch_size"
    and healthy: "\<forall>b. \<not> be_fails be col b"
  shows "\<exists>rows.
           execute_batch_query be col ids batch_size = (batches batch_size ids, Inr rows)
         \<and> map length (batches batch_size ids) = [batch_size, batch_size, batch_size, 1]
         \<and> concat (batches batch_size ids) = ids
         \<and> set rows = {f \<in> set (db_financial_funds (be_db be)). col_val col f \<in> set ids}
         \<and> length (map snd (unique_funds rows))
             = card (fund_id ` {f \<in> set (db_financial_funds (be_db be)). col_val col f \<in> set ids})
         \<and> length (insert_batches (be_db be) col ids [])
             = card (fund_id ` {f \<in> set (db_financial_funds (be_db be)). col_val col f \<in> set ids})"
proof -
  let ?rows = "concat (map (select_funds_in (be_db be) col) (batches batch_size ids))"
  let ?M = "{f \<in> set (db_financial_funds (be_db be)). col_val col f \<in> set ids}"
  from len have ne: "ids \<noteq> []" by auto
  have run: "execute_batch_query be col ids batch_size = (batches batch_size ids, Inr ?rows)"
    using ne pos run_batches_healthy[OF healthy, of "batches batch_size ids" "[]" "[]"]
    by (simp add: execute_batch_query_def)
  have lens: "map length (batches batch_size ids) = [batch_size, batch_size, batch_size, 1]"
    using len pos by (simp add: batches_four[OF len pos])
  have set_rows: "set ?rows = ?M"
    by (simp only: set_select_batches[OF pos] set_select_funds_in)
  have merged: "length (map snd (unique_funds ?rows)) = card (fund_id ` ?M)"
    by (simp only: unique_funds_insert_ignore length_merged set_rows)
  have "set (concat (map (select_funds_in (be_db be) col) (batches 1000 ids))) = ?M"
    using set_select_batches[of 1000 "be_db be" col ids] by (simp add: set_select_funds_in)
  then have temp: "length (insert_batches (be_db be) col ids []) = card (fund_id ` ?M)"
    by (simp only: insert_batches_eq length_merged)
  show ?thesis
    by (intro exI[of _ ?rows] conjI run lens concat_batches[OF pos] set_rows merged temp)
qed

theorem batched_executor_four_chunks_witness:
  "length [1, 2, 3, 4, 5, 6, 7 :: int] = 3 * 2 + 1
   \<and> (\<forall>b. \<not> be_fails scenario_backend HandleBy b)
   \<and> length (fst (execute_batch_query scenario_backend HandleBy [1, 2, 3, 4, 5, 6, 7] 2)) = 4"
proof -
  have h1: "length [1, 2, 3, 4, 5, 6, 7 :: int] = 3 * 2 + 1" by simp
  have h2: "(0::nat) < 2" by simp
  have h3: "\<forall>b. \<not> be_fails scenario_backend HandleBy b" by (simp add: scenario_backend_def)
  from batched_executor_four_chunks[OF h1 h2 h3] obtain rows where
    e: "execute_batch_query scenario_backend HandleBy [1, 2, 3, 4, 5, 6, 7] 2
          = (batches 2 [1, 2, 3, 4, 5, 6, 7], Inr rows)"
    and l: "map length (batches 2 [1, 2, 3, 4, 5, 6, 7 :: int]) = [2, 2, 2, 1]"
    by auto
  have "length (batches 2 [1, 2, 3, 4, 5, 6, 7 :: int])
          = length (map length (batches 2 [1, 2, 3, 4, 5, 6, 7 :: int]))"
    by simp
  also have "\<dots> = 4" unfolding l by simp
  finally show ?thesis using e h1 h3 by simp
qed

section \<open>The union of the three dimensions\<close>

lemma collect_futures_append:
  "collect_futures (xs @ ys) = collect_futures xs @ collect_futures ys"
  by (simp add: collect_futures_def)

lemma execute_batch_query_rows:
  assumes "snd (execute_batch_query be col ids 1000) = Inr rows"
  shows "set rows = {f \<in> set (db_financial_funds (be_db be)). col_val col f \<in> set ids}"
proof (cases "ids = []")
  case True
  with assms show ?thesis by (simp add: execute_batch_query_def)
next
  case False
  with assms obtain s where
    "run_batches be col (batches 1000 ids) [] [] = (s, Inr rows)"
    by (cases "run_batches be col (batches 1000 ids) [] []")
       (simp add: execute_batch_query_def)
  from run_batches_success[OF this]
  have "rows = concat (map (select_funds_in (be_db be) col) (batches 1000 ids))" by simp
  then show ?thesis
    using set_select_batches[of 1000 "be_db be" col ids] by (simp add: set_select_funds_in)
qed

lemma dimension_rows_sound:
  "set (collect_futures (dimension_results be col ids))
     \<subseteq> {f \<in> set (db_financial_funds (be_db be)). col_val col f \<in> set ids}"
proof (cases "ids = []")
  case True
  then show ?thesis by (simp add: dimension_results_def collect_futures_def)
next
  case False
  show ?thesis
  proof (cases "snd (execute_batch_query be col ids 1000)")
    case (Inl e)
    with False show ?thesis by (simp add: dimension_results_def collect_futures_def)
  next
    case (Inr rows)
    from execute_batch_query_rows[OF Inr] False Inr show ?thesis
      by (simp add: dimension_results_def collect_futures_def)
  qed
qed

lemma dimension_rows_complete:
  assumes "snd (execute_batch_query be col ids 1000) = Inr rows"
  shows "set (collect_futures (dimension_results be col ids))
     = {f \<in> set (db_financial_funds (be_db be)). col_val col f \<in> set ids}"
proof (cases "ids = []")
  case True
  then show ?thesis by (simp add: dimension_results_def collect_futures_def)
next
  case False
  from execute_batch_query_rows[OF assms] False assms show ?thesis
    by (simp add: dimension_results_def collect_futures_def)
qed

lemma healthy_query_succeeds:
  "\<forall>b. \<not> be_fails be col b \<Longrightarrow> \<exists>rows. snd (execute_batch_query be col ids 1000) = Inr rows"
  using run_batches_healthy[of be col "batches 1000 ids" "[]" "[]"]
  by (simp add: execute_batch_query_def)

lemma parallel_as_insert_ignore:
  "get_financial_funds_parallel be hs os cs =
     insert_ignore (collect_futures (dimension_results be HandleBy hs)
                    @ collect_futures (dimension_results be OrderId os)
                    @ collect_futures (dimension_results be CustomerId cs)) []"
  by (simp add: get_financial_funds_parallel_def unique_funds_insert_ignore
      collect_futures_append)

lemma parallel_distinct: "distinct (map fund_id (get_financial_funds_parallel be hs os cs))"
  unfolding parallel_as_insert_ignore by (rule distinct_insert_ignore) simp

lemma parallel_sound:
  "set (get_financial_funds_parallel be hs os cs)
     \<subseteq> {f \<in> set (db_financial_funds (be_db be)). matches_any hs os cs f}"
proof -
  have "set (get_financial_funds_parallel be hs os cs)
          \<subseteq> set (collect_futures (dimension_results be HandleBy hs))
            \<union> set (collect_futures (dimension_results be OrderId os))
            \<union> set (collect_futures (dimension_results be CustomerId cs))"
    unfolding parallel_as_insert_ignore using set_insert_ignore_subset[of _ "[]"] by fastforce
  with dimension_rows_sound[of be HandleBy hs] dimension_rows_sound[of be OrderId os]
    dimension_rows_sound[of be CustomerId cs]
  show ?thesis by (auto simp: matches_any_def)
qed

lemma parallel_ids:
  "fund_id ` set (get_financial_funds_parallel be hs os cs)
     = fund_id ` (set (collect_futures (dimension_results be HandleBy hs))
            \<union> set (collect_futures (dimension_results be OrderId os))
            \<union> set (collect_futures (dimension_results be CustomerId cs)))"
  unfolding parallel_as_insert_ignore ids_insert_ignore by auto

lemma parallel_complete_dimension:
  assumes "snd (execute_batch_query be col ids 1000) = Inr rows"
    and "(col, ids) \<in> {(HandleBy, hs), (OrderId, os), (CustomerId, cs)}"
    and "f \<in> set (db_financial_funds (be_db be))" and "col_val col f \<in> set ids"
  shows "fund_id f \<in> fund_id ` set (get_financial_funds_parallel be hs os cs)"
proof -
  from dimension_rows_complete[OF assms(1)] assms(3,4)
  have "f \<in> set (collect_futures (dimension_results be col ids))" by simp
  with assms(2) show ?thesis unfolding parallel_ids by auto
qed

lemma parallel_healthy_ids:
  assumes "\<forall>col b. \<not> be_fails be col b"
  shows "fund_id ` set (get_financial_funds_parallel be hs os cs)
     = fund_id ` {f \<in> set (db_financial_funds (be_db be)). matches_any hs os cs f}"
proof -
  from assms healthy_query_succeeds obtain r1 r2 r3 where
    "snd (execute_batch_query be HandleBy hs 1000) = Inr r1"
    "snd (execute_batch_query be OrderId os 1000) = Inr r2"
    "snd (execute_batch_query be CustomerId cs 1000) = Inr r3"
    by metis
  then have
    "set (collect_futures (dimension_results be HandleBy hs))
            \<union> set (collect_futures (dimension_results be OrderId os))
            \<union> set (collect_futures (dimension_results be CustomerId cs))
      = {f \<in> set (db_financial_funds (be_db be)). matches_any hs os cs f}"
    by (auto simp: dimension_rows_complete matches_any_def)
  then show ?thesis unfolding parallel_ids by simp
qed

lemma parallel_healthy_set:
  assumes "\<forall>col b. \<not> be_fails be col b"
    and pk: "distinct (map fund_id (db_financial_funds (be_db be)))"
  shows "set (get_financial_funds_parallel be hs os cs)
     = {f \<in> set (db_financial_funds (be_db be)). matches_any hs os cs f}"
proof
  show "set (get_financial_funds_parallel be hs os cs)
     \<subseteq> {f \<in> set (db_financial_funds (be_db be)). matches_any hs os cs f}"
    by (rule parallel_sound)
next
  show "{f \<in> set (db_financial_funds (be_db be)). matches_any hs os cs f}
     \<subseteq> set (get_financial_funds_parallel be hs os cs)"
  proof
    fix f assume f: "f \<in> {f \<in> set (db_financial_funds (be_db be)). matches_any hs os cs f}"
    then have "fund_id f \<in> fund_id ` set (get_financial_funds_parallel be hs os cs)"
      unfolding parallel_healthy_ids[OF assms(1)] by blast
    then obtain g where g: "g \<in> set (get_financial_funds_parallel be hs os cs)"
      and eq: "fund_id g = fund_id f" by auto
    from g parallel_sound have "g \<in> set (db_financial_funds (be_db be))" by blast
    with f eq pk have "g = f" by (auto simp: distinct_map inj_on_def)
    with g show "f \<in> set (get_financial_funds_parallel be hs os cs)" by simp
  qed
qed

section \<open>The authorized set as a union without repetition\<close>

lemma scenario_subordinates: "get_subordinates scenario_service 1 = Some {1, 2, 3}"
  by code_simp

lemma scenario_scope:
  "get_accessible_data_scope scenario_service (mk_user 1 ''supervisor'' None)
     = Some (Inr \<lparr>sc_handle_by = {1, 2, 3}, sc_order_ids = {201}, sc_customer_ids = {301}\<rparr>)"
  by code_simp

lemma scenario_get_funds:
  "get_funds scenario_service (mk_user 1 ''supervisor'' None)
     = Some (Inr [mk_fund 1001 2 201 302, mk_fund 1002 4 201 302, mk_fund 1003 4 202 301])"
  by code_simp

lemma scenario_permissions:
  "query_permissions scenario_db 1
     = \<lparr>subordinate_ids = [2, 3, 1], p_order_ids = [201], p_customer_ids = [301]\<rparr>"
  by code_simp

lemma scenario_parallel:
  "get_financial_funds_parallel scenario_backend [2, 3, 1] [201] [301]
     = [mk_fund 1001 2 201 302, mk_fund 1002 4 201 302, mk_fund 1003 4 202 301]"
  by code_simp


lemma get_funds_filter:
  "get_accessible_data_scope svc usr = Some (Inr sc) \<Longrightarrow>
   get_funds svc usr = Some (Inr (filter (in_scope sc) (financial_funds svc)))"
  by (simp add: get_funds_def)

text \<open>
  C2. The authorized set is the union of the three dimensions with every fund once.
  \<^verbatim>\<open>FinancialService.get_funds\<close> (main.py) keeps exactly the funds of the table that match a
  dimension of the scope, each as often as the table holds it. With a backend that answers,
  \<^verbatim>\<open>get_financial_funds_parallel\<close> returns rows with pairwise different fund ids whose ids are
  exactly the ids of the funds matching a dimension (the funds themselves when \<^verbatim>\<open>fund_id\<close> is
  a key of the table). In the scenario (U with subordinates U, A, B; A owns O1; B
  administers C1) both return the funds 1001, 1002 and 1003, once each, although 1001
  matches two dimensions and 1002 only the order dimension.
\<close>

theorem authorized_union_each_fund_once:
  "(get_accessible_data_scope svc usr = Some (Inr sc) \<longrightarrow>
      (\<exists>fs. get_funds svc usr = Some (Inr fs)
          \<and> set fs = {f \<in> set (financial_funds svc). in_scope sc f}
          \<and> mset fs = filter_mset (in_scope sc) (mset (financial_funds svc))))
   \<and> ((\<forall>col b. \<not> be_fails be col b) \<longrightarrow>
        distinct (map fund_id (get_financial_funds_parallel be hs os cs))
      \<and> set (get_financial_funds_parallel be hs os cs)
            \<subseteq> {f \<in> set (db_financial_funds (be_db be)). matches_any hs os cs f}
      \<and> fund_id ` set (get_financial_funds_parallel be hs os cs)
            = fund_id ` {f \<in> set (db_financial_funds (be_db be)). matches_any hs os cs f}
      \<and> (distinct (map fund_id (db_financial_funds (be_db be))) \<longrightarrow>
            set (get_financial_funds_parallel be hs os cs)
              = {f \<in> set (db_financial_funds (be_db be)). matches_any hs os cs f}))
   \<and> get_funds scenario_service (mk_user 1 ''supervisor'' None)
        = Some (Inr [mk_fund 1001 2 201 302, mk_fund 1002 4 201 302, mk_fund 1003 4 202 301])
   \<and> get_financial_funds_parallel scenario_backend
        (subordinate_ids (query_permissions scenario_db 1))
        (p_order_ids (query_permissions scenario_db 1))
        (p_customer_ids (query_permissions scenario_db 1))
        = [mk_fund 1001 2 201 302, mk_fund 1002 4 201 302, mk_fund 1003 4 202 301]"
proof (intro conjI impI)
  assume sc: "get_accessible_data_scope svc usr = Some (Inr sc)"
  show "\<exists>fs. get_funds svc usr = Some (Inr fs)
          \<and> set fs = {f \<in> set (financial_funds svc). in_scope sc f}
          \<and> mset fs = filter_mset (in_scope sc) (mset (financial_funds svc))"
    using get_funds_filter[OF sc] by auto
next
  show "distinct (map fund_id (get_financial_funds_parallel be hs os cs))"
    by (rule parallel_distinct)
next
  show "set (get_financial_funds_parallel be hs os cs)
            \<subseteq> {f \<in> set (db_financial_funds (be_db be)). matches_any hs os cs f}"
    by (rule parallel_sound)
next
  assume "\<forall>col b. \<not> be_fails be col b"
  then show "fund_id ` set (get_financial_funds_parallel be hs os cs)
            = fund_id ` {f \<in> set (db_financial_funds (be_db be)). matches_any hs os cs f}"
    by (rule parallel_healthy_ids)
next
  assume "\<forall>col b. \<not> be_fails be col b"
    and "distinct (map fund_id (db_financial_funds (be_db be)))"
  then show "set (get_financial_funds_parallel be hs os cs)
              = {f \<in> set (db_financial_funds (be_db be)). matches_any hs os cs f}"
    by (rule parallel_healthy_set)
next
  show "get_funds scenario_service (mk_user 1 ''supervisor'' None)
        = Some (Inr [mk_fund 1001 2 201 302, mk_fund 1002 4 201 302, mk_fund 1003 4 202 301])"
    by (rule scenario_get_funds)
next
  show "get_financial_funds_parallel scenario_backend
        (subordinate_ids (query_permissions scenario_db 1))
        (p_order_ids (query_permissions scenario_db 1))
        (p_customer_ids (query_permissions scenario_db 1))
        = [mk_fund 1001 2 201 302, mk_fund 1002 4 201 302, mk_fund 1003 4 202 301]"
    by (simp add: scenario_permissions scenario_parallel)
qed

theorem authorized_union_each_fund_once_witness:
  "get_accessible_data_scope scenario_service (mk_user 1 ''supervisor'' None)
     = Some (Inr \<lparr>sc_handle_by = {1, 2, 3}, sc_order_ids = {201}, sc_customer_ids = {301}\<rparr>)
   \<and> (\<forall>col b. \<not> be_fails scenario_backend col b)
   \<and> distinct (map fund_id (db_financial_funds (be_db scenario_backend)))
   \<and> set (get_financial_funds_parallel scenario_backend [2, 3, 1] [201] [301])
       = {f \<in> set (db_financial_funds (be_db scenario_backend)).
            matches_any [2, 3, 1] [201] [301] f}
   \<and> mset [mk_fund 1001 2 201 302, mk_fund 1002 4 201 302, mk_fund 1003 4 202 301]
       = filter_mset
           (in_scope \<lparr>sc_handle_by = {1, 2, 3}, sc_order_ids = {201}, sc_customer_ids = {301}\<rparr>)
           (mset (financial_funds scenario_service))"
proof -
  have h1: "\<forall>col b. \<not> be_fails scenario_backend col b"
    by (simp add: scenario_backend_def)
  have h2: "distinct (map fund_id (db_financial_funds (be_db scenario_backend)))"
    by (simp add: scenario_backend_def scenario_db_def scenario_funds_def mk_fund_def)
  note inst = authorized_union_each_fund_once
    [of scenario_service "mk_user 1 ''supervisor'' None"
        "\<lparr>sc_handle_by = {1, 2, 3}, sc_order_ids = {201}, sc_customer_ids = {301}\<rparr>"
        scenario_backend "[2, 3, 1]" "[201]" "[301]"]
  from inst scenario_scope scenario_get_funds
  have a: "mset [mk_fund 1001 2 201 302, mk_fund 1002 4 201 302, mk_fund 1003 4 202 301]
       = filter_mset
           (in_scope \<lparr>sc_handle_by = {1, 2, 3}, sc_order_ids = {201}, sc_customer_ids = {301}\<rparr>)
           (mset (financial_funds scenario_service))"
    by auto
  from inst h1 h2
  have b: "set (get_financial_funds_parallel scenario_backend [2, 3, 1] [201] [301])
       = {f \<in> set (db_financial_funds (be_db scenario_backend)).
            matches_any [2, 3, 1] [201] [301] f}"
    by blast
  from scenario_scope h1 h2 a b show ?thesis by blast
qed

section \<open>A dimension whose query fails\<close>

lemma paginated_outcome:
  "fst (get_paginated_financial_data be cache sid page page_size sb so) = Inl e \<Longrightarrow>
   e = ZeroDivisionError \<and> page_size = 0"
  by (auto simp: get_paginated_financial_data_def page_info_def total_pages_of_def Let_def
      split: prod.splits sum.splits if_splits)

text \<open>
  C6, as stated, fails. In the scenario with the order dimension down, the batched query of
  that dimension raises, and the page request for U still answers with a page: the funds of
  the handler and customer dimensions, a total of 2, and no error. Fund 1002, which U may
  see through order 201, is missing.
\<close>

theorem partial_union_returned_counterexample:
  "snd (execute_batch_query order_down_backend OrderId
          (p_order_ids (query_permissions scenario_db 1)) 1000) = Inl BackendError
   \<and> fst (get_paginated_financial_data order_down_backend Map.empty 1 1 20 ''fund_id'' ''ASC'')
       = Inr \<lparr>rs_data = [mk_view (mk_fund 1001 2 201 302), mk_view (mk_fund 1003 4 202 301)],
               rs_pagination = \<lparr>pg_page = 1, pg_page_size = 20, pg_total_count = 2,
                                 pg_total_pages = 1, pg_has_next = False,
                                 pg_has_prev = False\<rparr>\<rparr>"
  by code_simp

section \<open>Reading the pages one after the other\<close>

lemma py_slice_window:
  assumes "0 \<le> i" "0 \<le> p"
  shows "py_slice xs i (i + p) = take (nat p) (drop (nat i) xs)"
proof (cases "nat i \<le> length xs")
  case True
  with assms have a: "py_clamp (length xs) i = nat i" by (simp add: py_clamp_def)
  from assms have b: "py_clamp (length xs) (i + p) = min (nat i + nat p) (length xs)"
    by (simp add: py_clamp_def nat_add_distrib)
  show ?thesis
  proof (cases "nat i + nat p \<le> length xs")
    case True
    then show ?thesis by (simp add: py_slice_def a b)
  next
    case False
    then have "length (drop (nat i) xs) \<le> nat p" by simp
    then have "take (nat p) (drop (nat i) xs) = drop (nat i) xs" by simp
    with False show ?thesis by (simp add: py_slice_def a b)
  qed
next
  case False
  with assms have a: "py_clamp (length xs) i = length xs" by (simp add: py_clamp_def)
  from False assms have b: "py_clamp (length xs) (i + p) = length xs"
    by (simp add: py_clamp_def nat_add_distrib)
  from False show ?thesis by (simp add: py_slice_def a b)
qed

lemma mset_py_sort: "mset (py_sort k r xs) = mset xs"
  by (simp add: py_sort_def)

lemma fv_fund_with_user_info: "fv_fund (with_user_info db f) = f"
  by (simp add: with_user_info_def split: option.splits)

lemma map_fv_fund_with_user_info: "map fv_fund (map (with_user_info db) fs) = fs"
  by (induction fs) (simp_all add: fv_fund_with_user_info)

lemma ceil_pages_cover:
  assumes "1 \<le> (ps::int)" "0 < n" "(n + ps - 1) div ps \<le> page"
  shows "n \<le> page * ps"
proof -
  have "n + ps - 1 = (n + ps - 1) div ps * ps + (n + ps - 1) mod ps" by simp
  moreover have "(n + ps - 1) mod ps \<le> ps - 1"
    using assms(1) pos_mod_bound[of ps "n + ps - 1"] by linarith
  ultimately have "n \<le> (n + ps - 1) div ps * ps" by linarith
  also have "\<dots> \<le> page * ps" using assms(1,3) by (simp add: mult_right_mono)
  finally show ?thesis .
qed

lemma consistent_permissions:
  assumes "cache sid = None \<or> cache sid = Some (query_permissions db sid)"
  shows "fst (get_user_permissions db cache sid) = query_permissions db sid"
    and "snd (get_user_permissions db cache sid) sid = Some (query_permissions db sid)"
  using assms by (auto simp: get_user_permissions_def Let_def)


text \<open>
  What one call returns when the cache is empty for the user or holds the user's current
  permissions.
\<close>

lemma paginated_consistent:
  assumes cons: "cache sid = None \<or> cache sid = Some (query_permissions (be_db be) sid)"
  shows "fst (get_paginated_financial_data be cache sid page ps sb so) =
           (case page_info page ps (int (length (sorted_union be sid sb so))) of
              Inl e \<Rightarrow> Inl e
            | Inr pg \<Rightarrow>
                Inr \<lparr>rs_data = map (with_user_info (be_db be))
                                (py_slice (sorted_union be sid sb so)
                                   ((page - 1) * ps) ((page - 1) * ps + ps)),
                     rs_pagination = pg\<rparr>)"
    and "snd (get_paginated_financial_data be cache sid page ps sb so) sid
           = Some (query_permissions (be_db be) sid)"
proof -
  obtain p c where pc: "get_user_permissions (be_db be) cache sid = (p, c)"
    by (cases "get_user_permissions (be_db be) cache sid")
  with consistent_permissions[of cache sid "be_db be", OF cons]
  have p: "p = query_permissions (be_db be) sid"
    and c: "c sid = Some (query_permissions (be_db be) sid)"
    by simp_all
  show "fst (get_paginated_financial_data be cache sid page ps sb so) =
           (case page_info page ps (int (length (sorted_union be sid sb so))) of
              Inl e \<Rightarrow> Inl e
            | Inr pg \<Rightarrow>
                Inr \<lparr>rs_data = map (with_user_info (be_db be))
                                (py_slice (sorted_union be sid sb so)
                                   ((page - 1) * ps) ((page - 1) * ps + ps)),
                     rs_pagination = pg\<rparr>)"
    by (simp add: get_paginated_financial_data_def pc p sorted_union_def Let_def
        split: sum.splits)
  show "snd (get_paginated_financial_data be cache sid page ps sb so) sid
           = Some (query_permissions (be_db be) sid)"
    using c by (simp add: paginated_cache pc)
qed

lemma all_pages_from:
  "1 \<le> ps \<Longrightarrow> 1 \<le> page \<Longrightarrow>
   cache sid = None \<or> cache sid = Some (query_permissions (be_db be) sid) \<Longrightarrow>
   all_pages be cache sid ps sb so page
     = Inr (map (with_user_info (be_db be))
              (drop (nat ((page - 1) * ps)) (sorted_union be sid sb so)))"
proof (induction be cache sid ps sb so page rule: all_pages.induct)
  case (1 be cache sid ps sb so page)
  let ?all = "sorted_union be sid sb so"
  let ?n = "int (length ?all)"
  let ?a = "(page - 1) * ps"
  from "1.prems" have a0: "0 \<le> ?a" by simp
  from "1.prems" have ps0: "0 \<le> ps" by simp
  have slice: "py_slice ?all ?a (?a + ps) = take (nat ps) (drop (nat ?a) ?all)"
    by (rule py_slice_window[OF a0 ps0])
  have "\<exists>tp. total_pages_of ?n ps = Inr tp"
    using "1.prems"(1) by (simp add: total_pages_of_def)
  then obtain tp where tp: "total_pages_of ?n ps = Inr tp" ..
  define pg where "pg = \<lparr>pg_page = page, pg_page_size = ps, pg_total_count = ?n,
               pg_total_pages = tp, pg_has_next = (page < tp), pg_has_prev = (page > 1)\<rparr>"
  have pi: "page_info page ps ?n = Inr pg" by (simp add: page_info_def tp pg_def)
  define r where "r = \<lparr>rs_data = map (with_user_info (be_db be)) (take (nat ps) (drop (nat ?a) ?all)),
                     rs_pagination = pg\<rparr>"
  obtain x c where xc: "get_paginated_financial_data be cache sid page ps sb so = (x, c)"
    by (cases "get_paginated_financial_data be cache sid page ps sb so")
  from paginated_consistent[where cache = cache and sid = sid and be = be and page = page
      and ps = ps and sb = sb and so = so, OF "1.prems"(3)] xc
  have x: "x = Inr r" and c: "c sid = Some (query_permissions (be_db be) sid)"
    by (simp_all add: pi slice r_def)
  show ?case
  proof (cases "page < tp")
    case True
    then have hn: "pg_has_next (rs_pagination r)" by (simp add: r_def pg_def)
    have IH: "all_pages be c sid ps sb so (page + 1)
               = Inr (map (with_user_info (be_db be)) (drop (nat (page * ps)) ?all))"
      using "1.IH"[OF xc[unfolded x, symmetric] refl hn "1.prems"(1)] "1.prems"(2) c
      by simp
    have "nat (page * ps) = nat ?a + nat ps"
      using "1.prems" by (simp add: nat_add_distrib[symmetric] a0 algebra_simps)
    then have "take (nat ps) (drop (nat ?a) ?all) @ drop (nat (page * ps)) ?all
                = drop (nat ?a) ?all"
      by (metis append_take_drop_id drop_drop add.commute)
    then have "map (with_user_info (be_db be)) (take (nat ps) (drop (nat ?a) ?all))
               @ map (with_user_info (be_db be)) (drop (nat (page * ps)) ?all)
               = map (with_user_info (be_db be)) (drop (nat ?a) ?all)"
      by (metis map_append)
    with hn IH show ?thesis
      by (subst all_pages.simps) (simp add: xc x r_def)
  next
    case False
    then have hn: "\<not> pg_has_next (rs_pagination r)" by (simp add: r_def pg_def)
    have "?n \<le> page * ps"
    proof (cases "0 < ?n")
      case True
      with tp "1.prems"(1) have "tp = (?n + ps - 1) div ps"
        by (auto simp: total_pages_of_def split: if_splits)
      with False ceil_pages_cover[OF "1.prems"(1) True, of page] show ?thesis by simp
    next
      case F: False
      with "1.prems" show ?thesis by simp
    qed
    then have "length (drop (nat ?a) ?all) \<le> nat ps"
      using "1.prems" a0 by (simp add: algebra_simps)
    then have "take (nat ps) (drop (nat ?a) ?all) = drop (nat ?a) ?all" by simp
    with hn show ?thesis
      by (subst all_pages.simps) (simp add: xc x r_def)
  qed
qed


lemma sorted_union_ids:
  assumes "\<forall>col b. \<not> be_fails be col b"
  shows "distinct (map fund_id (sorted_union be sid sb so))"
    and "fund_id ` set (sorted_union be sid sb so)
           = fund_id ` {f \<in> set (db_financial_funds (be_db be)).
                 matches_any (subordinate_ids (query_permissions (be_db be) sid))
                   (p_order_ids (query_permissions (be_db be) sid))
                   (p_customer_ids (query_permissions (be_db be) sid)) f}"
proof -
  let ?u = "get_financial_funds_parallel be
          (subordinate_ids (query_permissions (be_db be) sid))
          (p_order_ids (query_permissions (be_db be) sid))
          (p_customer_ids (query_permissions (be_db be) sid))"
  have m: "mset (sorted_union be sid sb so) = mset ?u"
    by (simp add: sorted_union_def mset_py_sort)
  then have "mset (map fund_id (sorted_union be sid sb so)) = mset (map fund_id ?u)"
    by simp
  then have "distinct (map fund_id (sorted_union be sid sb so)) = distinct (map fund_id ?u)"
    by (rule mset_eq_imp_distinct_iff)
  then show "distinct (map fund_id (sorted_union be sid sb so))"
    by (simp add: parallel_distinct)
  from m have "set (sorted_union be sid sb so) = set ?u" by (rule mset_eq_setD)
  then show "fund_id ` set (sorted_union be sid sb so)
           = fund_id ` {f \<in> set (db_financial_funds (be_db be)).
                 matches_any (subordinate_ids (query_permissions (be_db be) sid))
                   (p_order_ids (query_permissions (be_db be) sid))
                   (p_customer_ids (query_permissions (be_db be) sid)) f}"
    by (simp add: parallel_healthy_ids[OF assms])
qed

text \<open>
  C7. With a backend that answers, a page size of at least one, and a cache that holds
  nothing or the current permissions of the user, reading page 1, 2, ... of
  \<^verbatim>\<open>get_paginated_financial_data\<close> until \<^verbatim>\<open>has_next\<close> is false ends, and the concatenated
  items are the sorted deduplicated union of the three dimensions: no fund id occurs twice,
  and the ids are exactly the ids of the funds of the table that match a dimension of the
  user's permissions.
\<close>

theorem all_pages_roundtrip:
  assumes healthy: "\<forall>col b. \<not> be_fails be col b"
    and ps: "1 \<le> page_size"
    and cons: "cache sid = None \<or> cache sid = Some (query_permissions (be_db be) sid)"
  shows "\<exists>items.
           all_pages be cache sid page_size sb so 1 = Inr items
         \<and> map fv_fund items = sorted_union be sid sb so
         \<and> distinct (map (fund_id \<circ> fv_fund) items)
         \<and> set (map (fund_id \<circ> fv_fund) items)
             = fund_id ` {f \<in> set (db_financial_funds (be_db be)).
                 matches_any (subordinate_ids (query_permissions (be_db be) sid))
                   (p_order_ids (query_permissions (be_db be) sid))
                   (p_customer_ids (query_permissions (be_db be) sid)) f}"
proof -
  let ?items = "map (with_user_info (be_db be)) (sorted_union be sid sb so)"
  have run: "all_pages be cache sid page_size sb so 1 = Inr ?items"
    using all_pages_from[OF ps, of 1 cache sid be sb so] cons by simp
  have funds: "map fv_fund ?items = sorted_union be sid sb so"
    by (rule map_fv_fund_with_user_info)
  have ids: "map (fund_id \<circ> fv_fund) ?items = map fund_id (sorted_union be sid sb so)"
    using funds by (metis map_map)
  have d: "distinct (map (fund_id \<circ> fv_fund) ?items)"
    unfolding ids by (rule sorted_union_ids(1)[OF healthy])
  have s: "set (map (fund_id \<circ> fv_fund) ?items)
             = fund_id ` {f \<in> set (db_financial_funds (be_db be)).
                 matches_any (subordinate_ids (query_permissions (be_db be) sid))
                   (p_order_ids (query_permissions (be_db be) sid))
                   (p_customer_ids (query_permissions (be_db be) sid)) f}"
    unfolding ids using sorted_union_ids(2)[OF healthy, of sid sb so] by simp
  show ?thesis by (intro exI[of _ ?items] conjI run funds d s)
qed

lemma scenario_all_pages:
  "all_pages scenario_backend Map.empty 1 2 ''fund_id'' ''ASC'' 1
     = Inr [mk_view (mk_fund 1001 2 201 302), mk_view (mk_fund 1002 4 201 302),
            mk_view (mk_fund 1003 4 202 301)]"
  by code_simp

theorem all_pages_roundtrip_witness:
  "(\<forall>col b. \<not> be_fails scenario_backend col b)
   \<and> (1::int) \<le> 2
   \<and> (Map.empty :: permission_cache) 1 = None
   \<and> map fv_fund [mk_view (mk_fund 1001 2 201 302), mk_view (mk_fund 1002 4 201 302),
                    mk_view (mk_fund 1003 4 202 301)]
       = sorted_union scenario_backend 1 ''fund_id'' ''ASC''"
proof -
  have h1: "\<forall>col b. \<not> be_fails scenario_backend col b"
    by (simp add: scenario_backend_def)
  have h2: "(1::int) \<le> 2" by simp
  have h3: "(Map.empty :: permission_cache) 1 = None
              \<or> (Map.empty :: permission_cache) 1
                   = Some (query_permissions (be_db scenario_backend) 1)"
    by simp
  from all_pages_roundtrip[OF h1 h2 h3, of "''fund_id''" "''ASC''"] scenario_all_pages
  have "map fv_fund [mk_view (mk_fund 1001 2 201 302), mk_view (mk_fund 1002 4 201 302),
                    mk_view (mk_fund 1003 4 202 301)]
       = sorted_union scenario_backend 1 ''fund_id'' ''ASC''"
    by auto
  with h1 h2 show ?thesis by simp
qed

section \<open>The total count of a page\<close>

lemma temp_table_as_insert_ignore:
  "create_temp_permission_table db hs os cs =
     insert_ignore
       (concat (map (select_funds_in db HandleBy) (batches 1000 hs))
        @ concat (map (select_funds_in db OrderId) (batches 1000 os))
        @ concat (map (select_funds_in db CustomerId) (batches 1000 cs))) []"
  by (simp add: create_temp_permission_table_def insert_batches_eq insert_ignore_append)

lemma length_temp_table:
  "length (create_temp_permission_table db hs os cs)
     = card (fund_id ` {f \<in> set (db_financial_funds db). matches_any hs os cs f})"
proof -
  have b: "set (concat (map (select_funds_in db col) (batches 1000 ids)))
            = {f \<in> set (db_financial_funds db). col_val col f \<in> set ids}" for col ids
    using set_select_batches[of 1000 db col ids] by (simp add: set_select_funds_in)
  have "set (concat (map (select_funds_in db HandleBy) (batches 1000 hs))
        @ concat (map (select_funds_in db OrderId) (batches 1000 os))
        @ concat (map (select_funds_in db CustomerId) (batches 1000 cs)))
      = {f \<in> set (db_financial_funds db). matches_any hs os cs f}"
    unfolding set_append b by (auto simp: matches_any_def)
  then show ?thesis
    by (simp only: temp_table_as_insert_ignore length_merged)
qed

lemma page_info_total_count:
  "page_info page ps n = Inr pg \<Longrightarrow> pg_total_count pg = n"
  by (auto simp: page_info_def split: sum.splits)

lemma get_accurate_pagination_count:
  "get_accurate_pagination db tbl page ps sb so = Inr (results, n) \<Longrightarrow> n = int (length tbl)"
  by (simp add: get_accurate_pagination_def Let_def
      split: option.splits sum.splits prod.splits)

lemma accurate_total_count:
  assumes "accurate_pagination_service db sid page ps sb so = Inr (Inr r)"
  shows "pg_total_count (rs_pagination r)
           = int (length (create_temp_permission_table db
                  (resolve_subordinate_ids db sid)
                  (get_order_ids_for_users db (resolve_subordinate_ids db sid))
                  (get_customer_ids_for_users db (resolve_subordinate_ids db sid))))"
proof -
  let ?tbl = "create_temp_permission_table db
                  (resolve_subordinate_ids db sid)
                  (get_order_ids_for_users db (resolve_subordinate_ids db sid))
                  (get_customer_ids_for_users db (resolve_subordinate_ids db sid))"
  show ?thesis
  proof (cases "get_accurate_pagination db ?tbl page ps sb so")
    case (Inl e)
    with assms show ?thesis by (simp add: accurate_pagination_service_def Let_def)
  next
    case (Inr res)
    obtain results n where res: "res = (results, n)" by (cases res)
    from get_accurate_pagination_count[OF Inr[unfolded res]]
    have n: "n = int (length ?tbl)" .
    from assms Inr res obtain pg where "page_info page ps n = Inr pg"
      and "r = \<lparr>rs_data = results, rs_pagination = pg\<rparr>"
      by (cases "page_info page ps n")
         (simp_all add: accurate_pagination_service_def Let_def)
    with page_info_total_count n show ?thesis by simp
  qed
qed

lemma optimized_pagination_count:
  "get_financial_funds_optimized_pagination scale db hs os cs page ps sb so est
     = Inr (results, n) \<Longrightarrow>
   n = (if page = 1 \<and> est then estimate_total_count scale db hs os cs else 0)"
  unfolding get_financial_funds_optimized_pagination_def Let_def
  by (auto split: sum.splits)

lemma smart_total_count:
  assumes "smart_pagination_service scale db sid page ps sb so = Inr (Inr r)"
  shows "pg_total_count (rs_pagination r)
           = (if page = 1
              then estimate_total_count scale db (resolve_subordinate_ids db sid)
                     (get_order_ids_for_users db (resolve_subordinate_ids db sid))
                     (get_customer_ids_for_users db (resolve_subordinate_ids db sid))
              else 0)"
proof -
  let ?hs = "resolve_subordinate_ids db sid"
  let ?os = "get_order_ids_for_users db ?hs"
  let ?cs = "get_customer_ids_for_users db ?hs"
  show ?thesis
  proof (cases "get_financial_funds_optimized_pagination scale db ?hs ?os ?cs page ps sb so
                  (page = 1)")
    case (Inl e)
    with assms show ?thesis by (simp add: smart_pagination_service_def Let_def)
  next
    case (Inr res)
    obtain results n where res: "res = (results, n)" by (cases res)
    from optimized_pagination_count[OF Inr[unfolded res]]
    have n: "n = (if page = 1 then estimate_total_count scale db ?hs ?os ?cs else 0)"
      by simp
    from assms Inr res obtain pg where "page_info page ps n = Inr pg"
      and "r = \<lparr>rs_data = results, rs_pagination = pg\<rparr>"
      by (cases "page_info page ps n")
         (simp_all add: smart_pagination_service_def Let_def)
    with page_info_total_count n show ?thesis by simp
  qed
qed

lemma parallel_total_count:
  assumes cons: "cache sid = None \<or> cache sid = Some (query_permissions (be_db be) sid)"
    and "fst (get_paginated_financial_data be cache sid page ps sb so) = Inr r"
  shows "pg_total_count (rs_pagination r) = int (length (sorted_union be sid sb so))"
proof -
  from assms(2) obtain pg where "page_info page ps (int (length (sorted_union be sid sb so))) = Inr pg"
    and "rs_pagination r = pg"
    unfolding paginated_consistent(1)[where cache = cache and sid = sid and be = be, OF cons]
    by (cases "page_info page ps (int (length (sorted_union be sid sb so)))") auto
  with page_info_total_count show ?thesis by simp
qed


text \<open>
  C5, as stated, fails. In the scenario U may see three funds. Asked for page 2 with two
  items a page, \<^verbatim>\<open>smart_pagination_service\<close> returns the third fund with a total count of 0
  and one page in all; on page 1 its total is the scaled sample count, 5 with exact
  fractions. \<^verbatim>\<open>accurate_pagination_service\<close> reports 3 for the same request.
\<close>

theorem smart_total_count_counterexample:
  "smart_pagination_service exact_scale scenario_db 1 2 2 ''fund_id'' ''ASC''
     = Inr (Inr \<lparr>rs_data = [mk_view (mk_fund 1003 4 202 301)],
                  rs_pagination = \<lparr>pg_page = 2, pg_page_size = 2, pg_total_count = 0,
                                    pg_total_pages = 1, pg_has_next = False,
                                    pg_has_prev = True\<rparr>\<rparr>)
   \<and> accurate_pagination_service scenario_db 1 2 2 ''fund_id'' ''ASC''
     = Inr (Inr \<lparr>rs_data = [mk_view (mk_fund 1003 4 202 301)],
                  rs_pagination = \<lparr>pg_page = 2, pg_page_size = 2, pg_total_count = 3,
                                    pg_total_pages = 2, pg_has_next = False,
                                    pg_has_prev = True\<rparr>\<rparr>)
   \<and> estimate_total_count exact_scale scenario_db [2, 3, 1] [201] [301] = 5"
  by code_simp

text \<open>
  C5, amended. The total count depends on the path. The temporary-table path
  (\<^verbatim>\<open>accurate_pagination_service\<close>) and the parallel path (\<^verbatim>\<open>get_paginated_financial_data\<close>,
  with every dimension answering) report on every page the exact number of distinct fund
  ids matching a dimension of the user's scope. \<^verbatim>\<open>smart_pagination_service\<close> reports the
  sampled estimate of \<^verbatim>\<open>estimate_total_count\<close> on page 1 and 0 on every other page.
\<close>

theorem total_count_by_path:
  "(accurate_pagination_service db sid page ps sb so = Inr (Inr r) \<longrightarrow>
      pg_total_count (rs_pagination r)
        = int (card (fund_id ` {f \<in> set (db_financial_funds db).
             matches_any (subordinate_ids (query_permissions db sid))
               (p_order_ids (query_permissions db sid))
               (p_customer_ids (query_permissions db sid)) f})))
   \<and> ((\<forall>col b. \<not> be_fails be col b)
        \<and> (cache sid = None \<or> cache sid = Some (query_permissions (be_db be) sid))
        \<and> fst (get_paginated_financial_data be cache sid page ps sb so) = Inr r' \<longrightarrow>
      pg_total_count (rs_pagination r')
        = int (card (fund_id ` {f \<in> set (db_financial_funds (be_db be)).
             matches_any (subordinate_ids (query_permissions (be_db be) sid))
               (p_order_ids (query_permissions (be_db be) sid))
               (p_customer_ids (query_permissions (be_db be) sid)) f})))
   \<and> (smart_pagination_service scale db sid page ps sb so = Inr (Inr r'') \<longrightarrow>
      pg_total_count (rs_pagination r'')
        = (if page = 1
           then estimate_total_count scale db (subordinate_ids (query_permissions db sid))
                  (p_order_ids (query_permissions db sid))
                  (p_customer_ids (query_permissions db sid))
           else 0))"
proof (intro conjI impI)
  assume "accurate_pagination_service db sid page ps sb so = Inr (Inr r)"
  from accurate_total_count[OF this]
  show "pg_total_count (rs_pagination r)
        = int (card (fund_id ` {f \<in> set (db_financial_funds db).
             matches_any (subordinate_ids (query_permissions db sid))
               (p_order_ids (query_permissions db sid))
               (p_customer_ids (query_permissions db sid)) f}))"
    by (simp add: length_temp_table query_permissions_def Let_def)
next
  assume a: "(\<forall>col b. \<not> be_fails be col b)
        \<and> (cache sid = None \<or> cache sid = Some (query_permissions (be_db be) sid))
        \<and> fst (get_paginated_financial_data be cache sid page ps sb so) = Inr r'"
  then have healthy: "\<forall>col b. \<not> be_fails be col b"
    and cons: "cache sid = None \<or> cache sid = Some (query_permissions (be_db be) sid)"
    and ret: "fst (get_paginated_financial_data be cache sid page ps sb so) = Inr r'"
    by blast+
  have "length (sorted_union be sid sb so) = card (fund_id ` set (sorted_union be sid sb so))"
    by (rule length_distinct_ids[OF sorted_union_ids(1)[OF healthy]])
  with parallel_total_count[OF cons ret] sorted_union_ids(2)[OF healthy, of sid sb so]
  show "pg_total_count (rs_pagination r')
        = int (card (fund_id ` {f \<in> set (db_financial_funds (be_db be)).
             matches_any (subordinate_ids (query_permissions (be_db be) sid))
               (p_order_ids (query_permissions (be_db be) sid))
               (p_customer_ids (query_permissions (be_db be) sid)) f}))"
    by simp
next
  assume "smart_pagination_service scale db sid page ps sb so = Inr (Inr r'')"
  from smart_total_count[OF this]
  show "pg_total_count (rs_pagination r'')
        = (if page = 1
           then estimate_total_count scale db (subordinate_ids (query_permissions db sid))
                  (p_order_ids (query_permissions db sid))
                  (p_customer_ids (query_permissions db sid))
           else 0)"
    by (simp add: query_permissions_def Let_def)
qed

lemma scenario_smart_page_2:
  "smart_pagination_service exact_scale scenario_db 1 2 2 ''fund_id'' ''ASC''
     = Inr (Inr \<lparr>rs_data = [mk_view (mk_fund 1003 4 202 301)],
                  rs_pagination = \<lparr>pg_page = 2, pg_page_size = 2, pg_total_count = 0,
                                    pg_total_pages = 1, pg_has_next = False,
                                    pg_has_prev = True\<rparr>\<rparr>)"
  by code_simp

lemma scenario_accurate_page_2:
  "accurate_pagination_service scenario_db 1 2 2 ''fund_id'' ''ASC''
     = Inr (Inr \<lparr>rs_data = [mk_view (mk_fund 1003 4 202 301)],
                  rs_pagination = \<lparr>pg_page = 2, pg_page_size = 2, pg_total_count = 3,
                                    pg_total_pages = 2, pg_has_next = False,
                                    pg_has_prev = True\<rparr>\<rparr>)"
  by code_simp

lemma scenario_parallel_page_2:
  "fst (get_paginated_financial_data scenario_backend Map.empty 1 2 2 ''fund_id'' ''ASC'')
     = Inr \<lparr>rs_data = [mk_view (mk_fund 1003 4 202 301)],
             rs_pagination = \<lparr>pg_page = 2, pg_page_size = 2, pg_total_count = 3,
                               pg_total_pages = 2, pg_has_next = False,
                               pg_has_prev = True\<rparr>\<rparr>"
  by code_simp

theorem total_count_by_path_witness:
  "(\<forall>col b. \<not> be_fails scenario_backend col b)
   \<and> (Map.empty :: permission_cache) 1 = None
   \<and> int (card (fund_id ` {f \<in> set (db_financial_funds scenario_db).
             matches_any (subordinate_ids (query_permissions scenario_db 1))
               (p_order_ids (query_permissions scenario_db 1))
               (p_customer_ids (query_permissions scenario_db 1)) f})) = 3
   \<and> int (card (fund_id ` {f \<in> set (db_financial_funds (be_db scenario_backend)).
             matches_any (subordinate_ids (query_permissions (be_db scenario_backend) 1))
               (p_order_ids (query_permissions (be_db scenario_backend) 1))
               (p_customer_ids (query_permissions (be_db scenario_backend) 1)) f})) = 3
   \<and> (if (2::int) = 1
       then estimate_total_count exact_scale scenario_db
              (subordinate_ids (query_permissions scenario_db 1))
              (p_order_ids (query_permissions scenario_db 1))
              (p_customer_ids (query_permissions scenario_db 1))
       else 0) = 0"
proof -
  have h1: "\<forall>col b. \<not> be_fails scenario_backend col b"
    by (simp add: scenario_backend_def)
  have h2: "(Map.empty :: permission_cache) 1 = None" by simp
  note inst = total_count_by_path
    [of scenario_db 1 2 2 "''fund_id''" "''ASC''" _ scenario_backend Map.empty _ exact_scale]
  from inst scenario_accurate_page_2
  have a: "int (card (fund_id ` {f \<in> set (db_financial_funds scenario_db).
             matches_any (subordinate_ids (query_permissions scenario_db 1))
               (p_order_ids (query_permissions scenario_db 1))
               (p_customer_ids (query_permissions scenario_db 1)) f})) = 3"
    by fastforce
  from inst h1 h2 scenario_parallel_page_2
  have b: "int (card (fund_id ` {f \<in> set (db_financial_funds (be_db scenario_backend)).
             matches_any (subordinate_ids (query_permissions (be_db scenario_backend) 1))
               (p_order_ids (query_permissions (be_db scenario_backend) 1))
               (p_customer_ids (query_permissions (be_db scenario_backend) 1)) f})) = 3"
    by fastforce
  from h1 h2 a b show ?thesis by simp
qed

section \<open>The pages when a dimension has failed\<close>

lemma dimension_rows_answer:
  "set (collect_futures (dimension_results be col ids))
     = {f \<in> set (db_financial_funds (be_db be)).
          dimension_answers be col ids \<and> col_val col f \<in> set ids}"
proof (cases "snd (execute_batch_query be col ids 1000)")
  case (Inl e)
  then show ?thesis
    by (simp add: dimension_results_def collect_futures_def dimension_answers_def)
next
  case (Inr rows)
  from dimension_rows_complete[OF Inr] Inr show ?thesis
    by (simp add: dimension_answers_def)
qed

lemma parallel_answered_ids:
  "fund_id ` set (get_financial_funds_parallel be hs os cs)
     = fund_id ` {f \<in> set (db_financial_funds (be_db be)).
          (dimension_answers be HandleBy hs \<and> handle_by f \<in> set hs)
          \<or> (dimension_answers be OrderId os \<and> order_id f \<in> set os)
          \<or> (dimension_answers be CustomerId cs \<and> customer_id f \<in> set cs)}"
proof -
  have "set (collect_futures (dimension_results be HandleBy hs))
            \<union> set (collect_futures (dimension_results be OrderId os))
            \<union> set (collect_futures (dimension_results be CustomerId cs))
      = {f \<in> set (db_financial_funds (be_db be)).
          (dimension_answers be HandleBy hs \<and> handle_by f \<in> set hs)
          \<or> (dimension_answers be OrderId os \<and> order_id f \<in> set os)
          \<or> (dimension_answers be CustomerId cs \<and> customer_id f \<in> set cs)}"
    unfolding dimension_rows_answer by auto
  then show ?thesis unfolding parallel_ids by simp
qed

lemma set_sorted_union:
  "set (sorted_union be sid sb so)
     = set (get_financial_funds_parallel be
          (subordinate_ids (query_permissions (be_db be) sid))
          (p_order_ids (query_permissions (be_db be) sid))
          (p_customer_ids (query_permissions (be_db be) sid)))"
  by (rule mset_eq_setD) (simp add: sorted_union_def mset_py_sort)

lemma distinct_sorted_union: "distinct (map fund_id (sorted_union be sid sb so))"
proof -
  let ?u = "get_financial_funds_parallel be
          (subordinate_ids (query_permissions (be_db be) sid))
          (p_order_ids (query_permissions (be_db be) sid))
          (p_customer_ids (query_permissions (be_db be) sid))"
  have "mset (map fund_id (sorted_union be sid sb so)) = mset (map fund_id ?u)"
    by (simp add: sorted_union_def mset_py_sort)
  then have "distinct (map fund_id (sorted_union be sid sb so)) = distinct (map fund_id ?u)"
    by (rule mset_eq_imp_distinct_iff)
  then show ?thesis by (simp add: parallel_distinct)
qed

text \<open>
  C6, amended. \<^verbatim>\<open>get_financial_funds_parallel\<close> catches the exception of a failed dimension,
  prints it and goes on; nothing is retried, and the failure does not fail the page
  request. Whatever the three dimension queries do, for a page size and a page number of at
  least one (and a cache that holds nothing or the user's current permissions)
  \<^verbatim>\<open>get_paginated_financial_data\<close> answers with a page. That page is the window of
  \<^verbatim>\<open>page_size\<close> items at offset \<^verbatim>\<open>(page - 1) * page_size\<close> of the list that reading page 1, 2,
  ... yields, and \<^verbatim>\<open>total_count\<close> is the length of that list. The list is the union of the
  dimensions that answered and of nothing else: its funds are rows of the table, no fund id
  occurs twice, and its fund ids are exactly the ids of the funds matching a dimension of
  the user's permissions whose batched query answered.
\<close>

theorem failed_dimension_is_dropped:
  assumes cons: "cache sid = None \<or> cache sid = Some (query_permissions (be_db be) sid)"
    and ps: "1 \<le> page_size"
    and pg: "1 \<le> page"
  shows "\<exists>r items.
           fst (get_paginated_financial_data be cache sid page page_size sb so) = Inr r
         \<and> all_pages be cache sid page_size sb so 1 = Inr items
         \<and> rs_data r = take (nat page_size) (drop (nat ((page - 1) * page_size)) items)
         \<and> pg_total_count (rs_pagination r) = int (length items)
         \<and> distinct (map (fund_id \<circ> fv_fund) items)
         \<and> fv_fund ` set items \<subseteq> set (db_financial_funds (be_db be))
         \<and> set (map (fund_id \<circ> fv_fund) items)
             = fund_id ` {f \<in> set (db_financial_funds (be_db be)).
                 (dimension_answers be HandleBy
                    (subordinate_ids (query_permissions (be_db be) sid))
                  \<and> handle_by f \<in> set (subordinate_ids (query_permissions (be_db be) sid)))
                 \<or> (dimension_answers be OrderId
                      (p_order_ids (query_permissions (be_db be) sid))
                    \<and> order_id f \<in> set (p_order_ids (query_permissions (be_db be) sid)))
                 \<or> (dimension_answers be CustomerId
                      (p_customer_ids (query_permissions (be_db be) sid))
                    \<and> customer_id f
                        \<in> set (p_customer_ids (query_permissions (be_db be) sid)))}"
proof -
  let ?U = "sorted_union be sid sb so"
  let ?items = "map (with_user_info (be_db be)) ?U"
  let ?call = "fst (get_paginated_financial_data be cache sid page page_size sb so)"
  from ps paginated_outcome[of be cache sid page page_size sb so]
  obtain r where r: "?call = Inr r" by (cases ?call) auto
  from r cons paginated_consistent(1)
      [where cache = cache and sid = sid and be = be and page = page and ps = page_size
         and sb = sb and so = so]
  obtain pgi where pgi: "page_info page page_size (int (length ?U)) = Inr pgi"
    and rv: "r = \<lparr>rs_data = map (with_user_info (be_db be))
                                (py_slice ?U ((page - 1) * page_size)
                                   ((page - 1) * page_size + page_size)),
                     rs_pagination = pgi\<rparr>"
    by (cases "page_info page page_size (int (length ?U))") auto
  have run: "all_pages be cache sid page_size sb so 1 = Inr ?items"
    using all_pages_from[OF ps, of 1 cache sid be sb so] cons by simp
  have w: "py_slice ?U ((page - 1) * page_size) ((page - 1) * page_size + page_size)
             = take (nat page_size) (drop (nat ((page - 1) * page_size)) ?U)"
    by (rule py_slice_window) (use ps pg in simp_all)
  have window: "rs_data r = take (nat page_size) (drop (nat ((page - 1) * page_size)) ?items)"
    unfolding rv w by (simp add: take_map drop_map)
  have total: "pg_total_count (rs_pagination r) = int (length ?items)"
    using page_info_total_count[OF pgi] by (simp add: rv)
  have funds: "map fv_fund ?items = ?U" by (rule map_fv_fund_with_user_info)
  have ids: "map (fund_id \<circ> fv_fund) ?items = map fund_id ?U"
    using funds by (metis map_map)
  have d: "distinct (map (fund_id \<circ> fv_fund) ?items)"
    unfolding ids by (rule distinct_sorted_union)
  have "fv_fund ` set ?items = set ?U" using funds by (metis set_map)
  then have sub: "fv_fund ` set ?items \<subseteq> set (db_financial_funds (be_db be))"
    unfolding set_sorted_union using parallel_sound by blast
  have s: "set (map (fund_id \<circ> fv_fund) ?items)
             = fund_id ` {f \<in> set (db_financial_funds (be_db be)).
                 (dimension_answers be HandleBy
                    (subordinate_ids (query_permissions (be_db be) sid))
                  \<and> handle_by f \<in> set (subordinate_ids (query_permissions (be_db be) sid)))
                 \<or> (dimension_answers be OrderId
                      (p_order_ids (query_permissions (be_db be) sid))
                    \<and> order_id f \<in> set (p_order_ids (query_permissions (be_db be) sid)))
                 \<or> (dimension_answers be CustomerId
                      (p_customer_ids (query_permissions (be_db be) sid))
                    \<and> customer_id f
                        \<in> set (p_customer_ids (query_permissions (be_db be) sid)))}"
    unfolding ids set_map set_sorted_union by (rule parallel_answered_ids)
  show ?thesis by (intro exI[of _ r] exI[of _ ?items] conjI r run window total d sub s)
qed

lemma order_down_all_pages:
  "all_pages order_down_backend Map.empty 1 1 ''fund_id'' ''ASC'' 1
     = Inr [mk_view (mk_fund 1001 2 201 302), mk_view (mk_fund 1003 4 202 301)]"
  by code_simp

lemma order_down_answers:
  "\<not> dimension_answers order_down_backend OrderId
        (p_order_ids (query_permissions (be_db order_down_backend) 1))
   \<and> dimension_answers order_down_backend HandleBy
        (subordinate_ids (query_permissions (be_db order_down_backend) 1))
   \<and> dimension_answers order_down_backend CustomerId
        (p_customer_ids (query_permissions (be_db order_down_backend) 1))"
  by code_simp

theorem failed_dimension_is_dropped_witness:
  "(Map.empty :: permission_cache) 1 = None
   \<and> (1::int) \<le> 1
   \<and> (\<exists>r. fst (get_paginated_financial_data order_down_backend Map.empty 1 1 1
                  ''fund_id'' ''ASC'') = Inr r
          \<and> rs_data r = [mk_view (mk_fund 1001 2 201 302)]
          \<and> pg_total_count (rs_pagination r) = 2)
   \<and> \<not> dimension_answers order_down_backend OrderId
          (p_order_ids (query_permissions (be_db order_down_backend) 1))
   \<and> fund_id ` {f \<in> set (db_financial_funds (be_db order_down_backend)).
         (dimension_answers order_down_backend HandleBy
            (subordinate_ids (query_permissions (be_db order_down_backend) 1))
          \<and> handle_by f
              \<in> set (subordinate_ids (query_permissions (be_db order_down_backend) 1)))
         \<or> (dimension_answers order_down_backend OrderId
              (p_order_ids (query_permissions (be_db order_down_backend) 1))
            \<and> order_id f \<in> set (p_order_ids (query_permissions (be_db order_down_backend) 1)))
         \<or> (dimension_answers order_down_backend CustomerId
              (p_customer_ids (query_permissions (be_db order_down_backend) 1))
            \<and> customer_id f
                \<in> set (p_customer_ids (query_permissions (be_db order_down_backend) 1)))}
       = {1001, 1003}"
proof -
  have h1: "(Map.empty :: permission_cache) 1 = None
              \<or> (Map.empty :: permission_cache) 1
                   = Some (query_permissions (be_db order_down_backend) 1)"
    by simp
  have h2: "(1::int) \<le> 1" by simp
  from failed_dimension_is_dropped
    [where cache = Map.empty and sid = 1 and be = order_down_backend and page_size = 1
       and page = 1 and sb = "''fund_id''" and so = "''ASC''", OF h1 h2 h2]
  obtain r items where
    r: "fst (get_paginated_financial_data order_down_backend Map.empty 1 1 1
               ''fund_id'' ''ASC'') = Inr r"
    and run: "all_pages order_down_backend Map.empty 1 1 ''fund_id'' ''ASC'' 1 = Inr items"
    and window: "rs_data r = take (nat 1) (drop (nat ((1 - 1) * 1)) items)"
    and total: "pg_total_count (rs_pagination r) = int (length items)"
    and ids: "set (map (fund_id \<circ> fv_fund) items)
       = fund_id ` {f \<in> set (db_financial_funds (be_db order_down_backend)).
         (dimension_answers order_down_backend HandleBy
            (subordinate_ids (query_permissions (be_db order_down_backend) 1))
          \<and> handle_by f
              \<in> set (subordinate_ids (query_permissions (be_db order_down_backend) 1)))
         \<or> (dimension_answers order_down_backend OrderId
              (p_order_ids (query_permissions (be_db order_down_backend) 1))
            \<and> order_id f \<in> set (p_order_ids (query_permissions (be_db order_down_backend) 1)))
         \<or> (dimension_answers order_down_backend CustomerId
              (p_customer_ids (query_permissions (be_db order_down_backend) 1))
            \<and> customer_id f
                \<in> set (p_customer_ids (query_permissions (be_db order_down_backend) 1)))}"
    by blast
  from run have items: "items = [mk_view (mk_fund 1001 2 201 302),
                                 mk_view (mk_fund 1003 4 202 301)]"
    unfolding order_down_all_pages by simp
  from window have a: "rs_data r = [mk_view (mk_fund 1001 2 201 302)]"
    unfolding items by simp
  from total have b: "pg_total_count (rs_pagination r) = 2" unfolding items by simp
  from r a b have page: "\<exists>r. fst (get_paginated_financial_data order_down_backend Map.empty
                  1 1 1 ''fund_id'' ''ASC'') = Inr r
          \<and> rs_data r = [mk_view (mk_fund 1001 2 201 302)]
          \<and> pg_total_count (rs_pagination r) = 2"
    by (intro exI[of _ r] conjI)
  have down: "\<not> dimension_answers order_down_backend OrderId
          (p_order_ids (query_permissions (be_db order_down_backend) 1))"
    using order_down_answers by (rule conjunct1)
  have "set (map (fund_id \<circ> fv_fund) items) = {1001, 1003}"
    unfolding items by (simp add: mk_view_def mk_fund_def)
  with ids have u: "fund_id ` {f \<in> set (db_financial_funds (be_db order_down_backend)).
         (dimension_answers order_down_backend HandleBy
            (subordinate_ids (query_permissions (be_db order_down_backend) 1))
          \<and> handle_by f
              \<in> set (subordinate_ids (query_permissions (be_db order_down_backend) 1)))
         \<or> (dimension_answers order_down_backend OrderId
              (p_order_ids (query_permissions (be_db order_down_backend) 1))
            \<and> order_id f \<in> set (p_order_ids (query_permissions (be_db order_down_backend) 1)))
         \<or> (dimension_answers order_down_backend CustomerId
              (p_customer_ids (query_permissions (be_db order_down_backend) 1))
            \<and> customer_id f
                \<in> set (p_customer_ids (query_permissions (be_db order_down_backend) 1)))}
       = {1001, 1003}"
    by simp
  from h2 page down u show ?thesis by (intro conjI) simp_all
qed

section \<open>Keyset pagination with a last-seen key\<close>

text \<open>
  C8. Two runs of \<^verbatim>\<open>get_financial_funds_with_pagination_v3\<close> on the scenario, each feeding
  the second call the sort key of the last row of the first page.

  Sorted by \<^verbatim>\<open>fund_id\<close> with one row a page and all three dimensions: the first page is
  fund 1001. The second call, with \<^verbatim>\<open>last_id = 1001\<close>, returns fund 1001 again: the appended
  \<^verbatim>\<open>AND f.fund_id > 1001\<close> binds to the customer condition only, so the rows of the handler
  and order conditions are not cut off. The reading never gets past the first row.

  Sorted by \<^verbatim>\<open>handle_by\<close> with two rows a page and the customer dimension alone: the first
  page is 1001 and 1002, the last key is 4. The second call asks for \<^verbatim>\<open>handle_by > 4\<close> and
  returns nothing: funds 1003 and 1004, which share the key 4, are never visited. No
  second sort key breaks the tie.
\<close>

theorem keyset_repeats_and_skips:
  "get_financial_funds_with_pagination_v3 scenario_db [2, 3, 1] [201] [301] 0 1
       ''fund_id'' ''ASC''
     = Inr ([mk_view (mk_fund 1001 2 201 302)], True)
   \<and> get_financial_funds_with_pagination_v3 scenario_db [2, 3, 1] [201] [301] 1001 1
       ''fund_id'' ''ASC''
     = Inr ([mk_view (mk_fund 1001 2 201 302)], True)
   \<and> get_financial_funds_with_pagination_v3 scenario_db [] [] [301, 302] 0 2
       ''handle_by'' ''ASC''
     = Inr ([mk_view (mk_fund 1001 2 201 302), mk_view (mk_fund 1002 4 201 302)], True)
   \<and> get_financial_funds_with_pagination_v3 scenario_db [] [] [301, 302] 4 2
       ''handle_by'' ''ASC''
     = Inr ([], False)"
  by code_simp

section \<open>Does the resolved set contain the user?\<close>

lemma subordinates_loop_mono:
  "subordinates_loop us stack subs = Some r \<Longrightarrow> subs \<subseteq> r"
proof (rule subordinates_loop.raw_induct
    [where P = "\<lambda>us stack subs r. subs \<subseteq> r", of us stack subs r])
  fix rec :: "(int \<times> user) list \<Rightarrow> int list \<Rightarrow> int set \<Rightarrow> int set option"
  fix us stack subs r
  assume IH: "\<And>us stack subs r. rec us stack subs = Some r \<Longrightarrow> subs \<subseteq> r"
  assume body: "(if stack = [] then Some subs
      else rec us (butlast stack @ children_of us (last stack)) (insert (last stack) subs)) = Some r"
  show "subs \<subseteq> r"
  proof (cases "stack = []")
    case True
    with body show ?thesis by simp
  next
    case False
    with body have
      "rec us (butlast stack @ children_of us (last stack)) (insert (last stack) subs) = Some r"
      by simp
    from IH[OF this] show ?thesis by blast
  qed
qed

lemma get_subordinates_self:
  assumes "get_subordinates svc user_id = Some r"
  shows "user_id \<in> r"
proof -
  from assms have "subordinates_loop (users svc) [user_id] {} = Some r"
    by (simp add: get_subordinates_def)
  then have "subordinates_loop (users svc) (children_of (users svc) user_id) {user_id} = Some r"
    by (subst (asm) subordinates_loop.simps) simp
  from subordinates_loop_mono[OF this] show ?thesis by simp
qed

lemma db_get_subordinates_self: "user_id \<in> set (db_get_subordinates db user_id)"
  by (simp add: db_get_subordinates_def)

lemma resolve_subordinate_ids_self: "supervisor_id \<in> set (resolve_subordinate_ids db supervisor_id)"
  by (simp add: resolve_subordinate_ids_def Let_def)

text \<open>
  C3. Two inputs at which a \<^verbatim>\<open>get_subordinates\<close> returns no set that contains the user.
  On the cyclic table \<^verbatim>\<open>PermissionService.get_subordinates(2)\<close> never returns. On the
  scenario's tables, which have no user 9, \<^verbatim>\<open>MySQLPermissionService.get_subordinates(9)\<close>
  returns the empty set: the result of the query replaces the set that held the user.
\<close>

theorem get_subordinates_misses_user:
  "get_subordinates cyclic_service 2 = None
   \<and> mysql_get_subordinates scenario_db 9 = Inr {}"
proof
  show "get_subordinates cyclic_service 2 = None"
  proof (cases "get_subordinates cyclic_service 2")
    case None
    then show ?thesis .
  next
    case (Some r)
    then have "subordinates_loop cyclic_users [2] {} = Some r"
      by (simp add: get_subordinates_def cyclic_service_def)
    from subordinates_loop_cyclic_never_returns[OF this] show ?thesis by simp
  qed
next
  show "mysql_get_subordinates scenario_db 9 = Inr {}"
    by (simp add: mysql_get_subordinates_def scenario_db_def scenario_users_def mk_user_def)
qed

section \<open>Authentication with an unknown role\<close>

lemma find_None_role: "(\<forall>u \<in> set us. role u \<noteq> r) \<Longrightarrow> find (\<lambda>u. role u = r) us = None"
  by (simp add: find_None_iff)

lemma find_None_role_low:
  "(\<forall>u \<in> set us. role u \<noteq> r) \<Longrightarrow> find (\<lambda>u. role u = r \<and> uid u \<le> 4) us = None"
  by (auto simp: find_None_iff)

lemma initial_admin_funds:
  "get_funds initial_service (the (map_of initial_users 1))
     = Some (Inr (financial_funds initial_service))"
  by code_simp

lemma initial_db_admin_funds:
  "db_get_funds initial_db (the (map_of initial_users 1)) = financial_funds initial_service"
  by code_simp

lemma initial_roles:
  "r \<noteq> ''admin'' \<Longrightarrow> r \<noteq> ''supervisor'' \<Longrightarrow> r \<noteq> ''staff'' \<Longrightarrow>
   \<forall>u \<in> set (map snd initial_users). role u \<noteq> r"
  by (auto simp: initial_users_def)


lemma initial_user_1:
  "map_of initial_users 1
     = Some \<lparr>uid = 1, name = ''super admin'', role = ''admin'', department = ''head office'',
              parent_id = None\<rparr>"
  by (simp add: initial_users_def)

lemma initial_db_user_1:
  "find (\<lambda>u. uid u = 1) (db_users initial_db) = map_of initial_users 1"
  by (simp add: initial_db_def initial_users_def)

text \<open>
  C10. When no user has the role given to \<^verbatim>\<open>authenticate\<close> and user 1 exists, both gateways
  make user 1 the current user without any error, and the next \<^verbatim>\<open>get_funds\<close> is the one of
  user 1. When user 1 is an admin (as in the tables the services set up) that is the admin
  scope: all users, orders and customers in \<^verbatim>\<open>main.py\<close>, the unfiltered sample of the fund
  table in \<^verbatim>\<open>database.py\<close>. On the initial tables every role other than the three known
  ones gets all three funds.
\<close>

theorem unknown_role_falls_back_to_user_1:
  "(map_of (users (permission_svc gw)) 1 = Some u1
      \<and> (\<forall>u \<in> set (map snd (users (permission_svc gw))). role u \<noteq> r) \<longrightarrow>
      (\<exists>gw'. authenticate gw r = Inr gw' \<and> current_user gw' = Some u1
           \<and> permission_svc gw' = permission_svc gw
           \<and> api_get_funds gw' = get_funds (permission_svc gw) u1))
   \<and> (role u1 = ''admin'' \<longrightarrow>
        get_funds svc u1
          = Some (Inr (filter (in_scope
               \<lparr>sc_handle_by = set (map (uid \<circ> snd) (users svc)),
                sc_order_ids = set (map (o_order_id \<circ> snd) (orders svc)),
                sc_customer_ids = set (map (c_customer_id \<circ> snd) (customers svc))\<rparr>)
               (financial_funds svc))))
   \<and> (find (\<lambda>u. uid u = 1) (db_users (gw_db g)) = Some v1
      \<and> (\<forall>u \<in> set (db_users (gw_db g)). role u \<noteq> r) \<longrightarrow>
      (\<exists>g'. db_authenticate g r = Inr g' \<and> gw_current_user g' = Some v1
           \<and> gw_db g' = gw_db g
           \<and> db_api_get_funds g' = Inr (db_get_funds (gw_db g) v1)))
   \<and> (role v1 = ''admin'' \<longrightarrow>
        db_get_funds db v1
          = take_unique (take 2000 (sort_key fund_id (take 1000 (db_financial_funds db)))) [] [])
   \<and> (r \<noteq> ''admin'' \<and> r \<noteq> ''supervisor'' \<and> r \<noteq> ''staff'' \<longrightarrow>
      (\<exists>gw'. authenticate \<lparr>permission_svc = initial_service, current_user = cu\<rparr> r = Inr gw'
           \<and> current_user gw' = map_of initial_users 1
           \<and> api_get_funds gw' = Some (Inr (financial_funds initial_service)))
      \<and> (\<exists>g'. db_authenticate \<lparr>gw_db = initial_db, gw_current_user = cv\<rparr> r = Inr g'
           \<and> gw_current_user g' = map_of initial_users 1
           \<and> db_api_get_funds g' = Inr (financial_funds initial_service)))"
proof (intro conjI impI)
  assume a: "map_of (users (permission_svc gw)) 1 = Some u1
      \<and> (\<forall>u \<in> set (map snd (users (permission_svc gw))). role u \<noteq> r)"
  then have "find (\<lambda>u. role u = r) (map snd (users (permission_svc gw))) = None"
    by (intro find_None_role) blast
  with a show "\<exists>gw'. authenticate gw r = Inr gw' \<and> current_user gw' = Some u1
           \<and> permission_svc gw' = permission_svc gw
           \<and> api_get_funds gw' = get_funds (permission_svc gw) u1"
    by (simp add: authenticate_def lookup_user_def api_get_funds_def)
next
  assume "role u1 = ''admin''"
  then show "get_funds svc u1
          = Some (Inr (filter (in_scope
               \<lparr>sc_handle_by = set (map (uid \<circ> snd) (users svc)),
                sc_order_ids = set (map (o_order_id \<circ> snd) (orders svc)),
                sc_customer_ids = set (map (c_customer_id \<circ> snd) (customers svc))\<rparr>)
               (financial_funds svc)))"
    by (simp add: get_funds_def get_accessible_data_scope_def)
next
  assume a: "find (\<lambda>u. uid u = 1) (db_users (gw_db g)) = Some v1
      \<and> (\<forall>u \<in> set (db_users (gw_db g)). role u \<noteq> r)"
  then have "find (\<lambda>u. role u = r) (db_users (gw_db g)) = None"
    and "find (\<lambda>u. role u = r \<and> uid u \<le> 4) (db_users (gw_db g)) = None"
    by (simp_all add: find_None_role find_None_role_low)
  with a show "\<exists>g'. db_authenticate g r = Inr g' \<and> gw_current_user g' = Some v1
           \<and> gw_db g' = gw_db g
           \<and> db_api_get_funds g' = Inr (db_get_funds (gw_db g) v1)"
    by (simp add: db_authenticate_def db_api_get_funds_def)
next
  assume "role v1 = ''admin''"
  then show "db_get_funds db v1
          = take_unique (take 2000 (sort_key fund_id (take 1000 (db_financial_funds db)))) [] []"
    by (simp add: db_get_funds_def db_get_accessible_data_scope_def Let_def)
next
  assume r: "r \<noteq> ''admin'' \<and> r \<noteq> ''supervisor'' \<and> r \<noteq> ''staff''"
  then have no: "\<forall>u \<in> set (map snd initial_users). role u \<noteq> r"
    by (intro initial_roles) blast+
  then have "find (\<lambda>u. role u = r) (map snd initial_users) = None"
    by (rule find_None_role)
  then show "\<exists>gw'. authenticate \<lparr>permission_svc = initial_service, current_user = cu\<rparr> r = Inr gw'
           \<and> current_user gw' = map_of initial_users 1
           \<and> api_get_funds gw' = Some (Inr (financial_funds initial_service))"
    using initial_admin_funds initial_user_1
    by (simp add: authenticate_def lookup_user_def api_get_funds_def initial_service_def)
next
  assume r: "r \<noteq> ''admin'' \<and> r \<noteq> ''supervisor'' \<and> r \<noteq> ''staff''"
  then have no: "\<forall>u \<in> set (db_users initial_db). role u \<noteq> r"
    using initial_roles[of r] by (simp add: initial_db_def)
  then have "find (\<lambda>u. role u = r) (db_users initial_db) = None"
    and "find (\<lambda>u. role u = r \<and> uid u \<le> 4) (db_users initial_db) = None"
    by (simp_all add: find_None_role find_None_role_low)
  then show "\<exists>g'. db_authenticate \<lparr>gw_db = initial_db, gw_current_user = cv\<rparr> r = Inr g'
           \<and> gw_current_user g' = map_of initial_users 1
           \<and> db_api_get_funds g' = Inr (financial_funds initial_service)"
    using initial_db_admin_funds initial_db_user_1 initial_user_1
    by (simp add: db_authenticate_def db_api_get_funds_def)
qed


theorem unknown_role_falls_back_to_user_1_witness:
  "''guest'' \<noteq> ''admin'' \<and> ''guest'' \<noteq> ''supervisor'' \<and> ''guest'' \<noteq> ''staff''
   \<and> list_all (\<lambda>u. role u \<noteq> ''guest'') (map snd (users initial_service))
   \<and> (\<exists>gw'. authenticate \<lparr>permission_svc = initial_service, current_user = None\<rparr> ''guest''
                = Inr gw'
           \<and> current_user gw' = map_of initial_users 1
           \<and> api_get_funds gw' = Some (Inr (financial_funds initial_service)))
   \<and> (\<exists>g'. db_authenticate \<lparr>gw_db = initial_db, gw_current_user = None\<rparr> ''guest'' = Inr g'
           \<and> gw_current_user g' = map_of initial_users 1
           \<and> db_api_get_funds g' = Inr (financial_funds initial_service))"
proof -
  have h: "''guest'' \<noteq> ''admin'' \<and> ''guest'' \<noteq> ''supervisor'' \<and> ''guest'' \<noteq> ''staff''"
    by simp
  have l: "list_all (\<lambda>u. role u \<noteq> ''guest'') (map snd (users initial_service))"
    by (simp add: initial_service_def initial_users_def)
  note inst = unknown_role_falls_back_to_user_1
    [where r = "''guest''" and cu = None and cv = None,
     THEN conjunct2, THEN conjunct2, THEN conjunct2, THEN conjunct2, rule_format, OF h]
  from inst have a: "\<exists>gw'. authenticate \<lparr>permission_svc = initial_service, current_user = None\<rparr> ''guest''
                = Inr gw'
           \<and> current_user gw' = map_of initial_users 1
           \<and> api_get_funds gw' = Some (Inr (financial_funds initial_service))"
    by (rule conjunct1)
  from inst have b: "\<exists>g'. db_authenticate \<lparr>gw_db = initial_db, gw_current_user = None\<rparr> ''guest'' = Inr g'
           \<and> gw_current_user g' = map_of initial_users 1
           \<and> db_api_get_funds g' = Inr (financial_funds initial_service)"
    by (rule conjunct2)
  show ?thesis
    by (intro conjI l a b) simp_all
qed

section \<open>The capped page of DatabaseFinancialService.get_funds\<close>

























































section \<open>Subordinate resolution on a table without cycles\<close>

text \<open>
  When no chain of \<^verbatim>\<open>parent_id\<close> references comes back to its start, the traversal of
  \<^verbatim>\<open>PermissionService.get_subordinates\<close> ends: a round replaces the user on top of the stack
  by that user's direct subordinates, which makes the stack smaller in the multiset order
  of the relation "is a direct subordinate of".
\<close>

lemma finite_child_of: "finite (child_of us)"
proof -
  have "child_of us \<subseteq> fst ` set us \<times> (the \<circ> parent_id \<circ> snd) ` set us"
  proof
    fix x assume "x \<in> child_of us"
    then obtain c p u where x: "x = (c, p)" and m: "(c, u) \<in> set us" and "parent_id u = Some p"
      by (auto simp: child_of_def children_of_def)
    then have "c = fst (c, u)" "p = (the \<circ> parent_id \<circ> snd) (c, u)" by simp_all
    with m x show "x \<in> fst ` set us \<times> (the \<circ> parent_id \<circ> snd) ` set us"
      by blast
  qed
  then show ?thesis by (rule finite_subset) simp
qed

lemma subordinates_loop_terminates:
  assumes "wf (child_of us)"
  shows "\<exists>r. subordinates_loop us stack subs = Some r"
proof (induction "mset stack" arbitrary: stack subs rule: wf_induct_rule[OF wf_mult[OF assms]])
  case 1
  show ?case
  proof (cases "stack = []")
    case True
    then show ?thesis by (subst subordinates_loop.simps) simp
  next
    case False
    let ?next = "butlast stack @ children_of us (last stack)"
    from False have split: "mset stack = mset (butlast stack) + {#last stack#}"
      by (metis append_butlast_last_id mset.simps(2) mset_append add.right_neutral mset.simps(1) union_mset_add_mset_right)
    have "(mset (butlast stack) + mset (children_of us (last stack)),
           mset (butlast stack) + {#last stack#}) \<in> mult (child_of us)"
      by (rule one_step_implies_mult) (auto simp: child_of_def)
    then have "(mset ?next, mset stack) \<in> mult (child_of us)"
      by (simp add: split)
    from 1[OF this, of "insert (last stack) subs"] False show ?thesis
      by (subst subordinates_loop.simps) simp
  qed
qed

lemma get_subordinates_returns_acyclic:
  assumes "acyclic (child_of (users svc))"
  shows "\<exists>r. get_subordinates svc user_id = Some r \<and> user_id \<in> r"
proof -
  from assms have "wf (child_of (users svc))"
    by (intro finite_acyclic_wf finite_child_of)
  from subordinates_loop_terminates[OF this, of "[user_id]" "{}"]
  obtain r where "get_subordinates svc user_id = Some r"
    by (auto simp: get_subordinates_def)
  with get_subordinates_self show ?thesis by blast
qed

end
